theory Spec2Isabelle
  imports Main "HOL-Library.Word"
begin

unbundle bit_operations_syntax

section \<open>i2shell: the USB-serial to I2C gateway\<close>

text \<open>
  The sketch keeps its whole state in a handful of \<open>unsigned char\<close> globals and advances
  it in \<open>loop()\<close>, which the Arduino runtime calls again and again. Each call either
  finds no input (and then emits the pending keep-alive byte) or reads exactly one
  character and runs it through a \<open>switch\<close> over the parser state, whose cases jump into
  each other with \<open>goto parse_cmd\<close> and \<open>goto recv_now\<close>.

  Bytes are \<open>8 word\<close>, so every addition and shift wraps modulo 256 as
  \<open>unsigned char\<close> assignment does. Characters are bytes too; \<open>ch CHR ''S''\<close> is the
  byte of the character literal \<open>'S'\<close>.
\<close>

type_synonym u8 = "8 word"

abbreviation ch :: "char \<Rightarrow> u8" where
  "ch c \<equiv> of_char c"

definition bytes :: "string \<Rightarrow> u8 list" where
  "bytes s = map of_char s"

abbreviation CR :: u8 where "CR \<equiv> 0x0D"
abbreviation LF :: u8 where "LF \<equiv> 0x0A"

subsection \<open>The data model\<close>

datatype state =
    ST_CMD   \<comment> \<open>parsing command\<close>
  | ST_ADDR  \<comment> \<open>parsing address\<close>
  | ST_CMDW  \<comment> \<open>addr+w sent, parsing byte to send\<close>
  | ST_CMDR  \<comment> \<open>addr+r sent, parsing byte count to recv\<close>
  | ST_RECV  \<comment> \<open>receiving requested bytes\<close>

text \<open>
  TinyWireM is a library outside the sketch. It is taken as a parameter: a state of any
  type \<open>'b\<close> and the six entry points the sketch calls, each returning the library's next
  state (and its result, where the sketch reads one). The result of \<open>send\<close> is never read
  by the sketch.
\<close>

record 'b twi =
  beginTransmission :: "u8 \<Rightarrow> 'b \<Rightarrow> 'b"
  send :: "u8 \<Rightarrow> 'b \<Rightarrow> 'b"
  endTransmission :: "'b \<Rightarrow> u8 \<times> 'b"
  requestFrom :: "u8 \<Rightarrow> u8 \<Rightarrow> 'b \<Rightarrow> u8 \<times> 'b"
  available :: "'b \<Rightarrow> u8 \<times> 'b"
  receive :: "'b \<Rightarrow> u8 \<times> 'b"

text \<open>What the bus library sees, call by call, and which \<open>goto\<close> was taken.\<close>

datatype bus_call =
    BeginTransmission u8
  | Send u8
  | EndTransmission
  | RequestFrom u8 u8
  | Available
  | Receive

datatype label = L_parse_cmd | L_recv_now

text \<open>
  The globals \<open>ret\<close>, \<open>addr\<close>, \<open>data\<close>, \<open>digits\<close>, \<open>to_print\<close> and \<open>state\<close> (the array
  \<open>buf\<close> is never used), the state of the bus library, and the two byte streams of
  SerialUSB: \<open>serial_in\<close> is what \<open>SerialUSB.read()\<close> will deliver, \<open>serial_out\<close> what
  \<open>SerialUSB.write\<close> has emitted. The fields \<open>calls\<close> and \<open>jumps\<close> are logs only: no
  branch reads them.
\<close>

record 'b world =
  state :: state
  ret :: u8
  addr :: u8
  data :: u8
  digits :: u8
  to_print :: u8
  wire :: 'b
  serial_in :: "u8 list"
  serial_out :: "u8 list"
  calls :: "bus_call list"
  jumps :: "label list"

definition init :: "'b \<Rightarrow> 'b world" where
  "init b = \<lparr> state = ST_CMD, ret = 0, addr = 0, data = 0, digits = 0, to_print = 0,
              wire = b, serial_in = [], serial_out = [], calls = [], jumps = [] \<rparr>"

subsection \<open>Calls into the collaborators\<close>

definition SerialUSB_write :: "u8 list \<Rightarrow> 'b world \<Rightarrow> 'b world" where
  "SerialUSB_write bs w = w\<lparr>serial_out := serial_out w @ bs\<rparr>"

definition tw_beginTransmission :: "'b twi \<Rightarrow> u8 \<Rightarrow> 'b world \<Rightarrow> 'b world" where
  "tw_beginTransmission tw a w =
     w\<lparr>wire := beginTransmission tw a (wire w), calls := calls w @ [BeginTransmission a]\<rparr>"

definition tw_send :: "'b twi \<Rightarrow> u8 \<Rightarrow> 'b world \<Rightarrow> 'b world" where
  "tw_send tw d w = w\<lparr>wire := send tw d (wire w), calls := calls w @ [Send d]\<rparr>"

definition tw_endTransmission :: "'b twi \<Rightarrow> 'b world \<Rightarrow> u8 \<times> 'b world" where
  "tw_endTransmission tw w =
     (fst (endTransmission tw (wire w)),
      w\<lparr>wire := snd (endTransmission tw (wire w)), calls := calls w @ [EndTransmission]\<rparr>)"

definition tw_requestFrom :: "'b twi \<Rightarrow> u8 \<Rightarrow> u8 \<Rightarrow> 'b world \<Rightarrow> u8 \<times> 'b world" where
  "tw_requestFrom tw a n w =
     (fst (requestFrom tw a n (wire w)),
      w\<lparr>wire := snd (requestFrom tw a n (wire w)), calls := calls w @ [RequestFrom a n]\<rparr>)"

definition tw_available :: "'b twi \<Rightarrow> 'b world \<Rightarrow> u8 \<times> 'b world" where
  "tw_available tw w =
     (fst (available tw (wire w)),
      w\<lparr>wire := snd (available tw (wire w)), calls := calls w @ [Available]\<rparr>)"

definition tw_receive :: "'b twi \<Rightarrow> 'b world \<Rightarrow> u8 \<times> 'b world" where
  "tw_receive tw w =
     (fst (receive tw (wire w)),
      w\<lparr>wire := snd (receive tw (wire w)), calls := calls w @ [Receive]\<rparr>)"

subsection \<open>The hex codec\<close>

text \<open>
  \<open>read_hex(in, c)\<close>: the pointer \<open>in\<close> may be NULL, so the accumulator is optional; the
  result is the returned flag and what \<open>*in\<close> holds afterwards. The source compares a
  \<open>char\<close>; a byte above 127 fails every range test whether \<open>char\<close> is signed or not, as
  it does here.
\<close>

definition read_hex :: "u8 option \<Rightarrow> u8 \<Rightarrow> u8 \<times> u8 option" where
  "read_hex inp c =
     (if ch CHR ''0'' \<le> c \<and> c \<le> ch CHR ''9'' then
        (1, map_option (\<lambda>x. push_bit 4 x + (c - ch CHR ''0'')) inp)
      else if ch CHR ''A'' \<le> c \<and> c \<le> ch CHR ''F'' then
        (1, map_option (\<lambda>x. push_bit 4 x + (c - (ch CHR ''A'' - 10))) inp)
      else if ch CHR ''a'' \<le> c \<and> c \<le> ch CHR ''z'' then
        (1, map_option (\<lambda>x. push_bit 4 x + (c - (ch CHR ''a'' - 10))) inp)
      else (0, inp))"

text \<open>The call sites all pass the address of a global: flag and new value of the global.\<close>

definition read_hex_at :: "u8 \<Rightarrow> u8 \<Rightarrow> u8 \<times> u8" where
  "read_hex_at x c =
     (fst (read_hex (Some x) c), case snd (read_hex (Some x) c) of Some y \<Rightarrow> y | None \<Rightarrow> x)"

definition tohex :: "u8 \<Rightarrow> u8" where
  "tohex i = (if i < 10 then i + ch CHR ''0'' else i - 10 + ch CHR ''A'')"

definition print_hex :: "u8 list option \<Rightarrow> u8 \<Rightarrow> u8 list option \<Rightarrow> 'b world \<Rightarrow> 'b world" where
  "print_hex pfx x sfx w =
     (let w1 = (case pfx of Some (p # ps) \<Rightarrow> SerialUSB_write (p # ps) w | _ \<Rightarrow> w);
          w2 = SerialUSB_write [tohex (drop_bit 4 x)] w1;
          w3 = SerialUSB_write [tohex (x AND 0xF)] w2
      in (case sfx of Some (s # ss) \<Rightarrow> SerialUSB_write (s # ss) w3 | _ \<Rightarrow> w3))"

definition help_text :: "u8 list" where
  "help_text =
     bytes ''?       : print this help'' @ [CR, LF] @
     bytes ''S<addr> : set I2C addr (hex)'' @ [CR, LF] @
     bytes ''W<byte>*: write bytes (hex)'' @ [CR, LF] @
     bytes ''P       : push (end of write)'' @ [CR, LF] @
     bytes ''R<num>  : read bytes (hex)'' @ [CR, LF] @
     [CR, LF]"

text \<open>The build without \<open>NOHELP\<close>.\<close>

definition print_help :: "'b world \<Rightarrow> 'b world" where
  "print_help w = SerialUSB_write help_text w"

subsection \<open>The parser: the cases of the switch in \<open>loop()\<close>\<close>

text \<open>The block at label \<open>parse_cmd\<close> (the body of \<open>case ST_CMD\<close>), up to its \<open>break\<close>.\<close>

definition parse_cmd :: "'b twi \<Rightarrow> u8 \<Rightarrow> 'b world \<Rightarrow> 'b world" where
  "parse_cmd tw l w0 =
     (let w = w0\<lparr>data := 0, digits := 0\<rparr> in
      if l = ch CHR ''S'' then w\<lparr>state := ST_ADDR, addr := 0\<rparr>
      else if l = ch CHR ''W'' then (tw_beginTransmission tw (addr w) w)\<lparr>state := ST_CMDW\<rparr>
      else if l = ch CHR ''R'' then w\<lparr>state := ST_CMDR\<rparr>
      else if l = ch CHR ''?'' then (print_help w)\<lparr>to_print := 0\<rparr>
      else w)"

definition goto_parse_cmd :: "'b twi \<Rightarrow> u8 \<Rightarrow> 'b world \<Rightarrow> 'b world" where
  "goto_parse_cmd tw l w = parse_cmd tw l (w\<lparr>jumps := jumps w @ [L_parse_cmd]\<rparr>)"

definition case_ADDR :: "'b twi \<Rightarrow> u8 \<Rightarrow> 'b world \<Rightarrow> 'b world" where
  "case_ADDR tw l w0 =
     (let w1 = w0\<lparr>addr := snd (read_hex_at (addr w0) l)\<rparr>;
          w2 = (if l = ch CHR ''S'' \<or> l = ch CHR ''P''
                then w1\<lparr>state := ST_ADDR, addr := 0\<rparr> else w1)
      in if l \<noteq> ch CHR ''W'' \<and> l \<noteq> ch CHR ''R'' \<and> l \<noteq> ch CHR ''?'' then w2
         else goto_parse_cmd tw l (w2\<lparr>state := ST_CMD\<rparr>))"

definition case_CMDW :: "'b twi \<Rightarrow> u8 \<Rightarrow> 'b world \<Rightarrow> 'b world" where
  "case_CMDW tw l w0 =
     (let w1 = w0\<lparr>ret := fst (read_hex_at (data w0) l), data := snd (read_hex_at (data w0) l)\<rparr>;
          w2 = w1\<lparr>digits := digits w1 + ret w1\<rparr>;
          w3 = (if (digits w2 \<noteq> 0 \<and> ret w2 = 0) \<or> digits w2 = 2
                then (tw_send tw (data w2) w2)\<lparr>data := 0, digits := 0\<rparr> else w2)
      in if ret w3 = 0 \<and> l \<noteq> ch CHR '' '' \<and> l \<noteq> ch CHR ''W'' then
           (let w4 = (snd (tw_endTransmission tw w3))\<lparr>ret := fst (tw_endTransmission tw w3)\<rparr>;
                w5 = (if ret w4 \<noteq> 0
                      then (print_hex (Some (bytes ''W!'')) (ret w4) (Some [LF]) w4)\<lparr>to_print := 0\<rparr>
                      else w4)
            in goto_parse_cmd tw l (w5\<lparr>state := ST_CMD\<rparr>))
         else w3)"

text \<open>
  The \<open>while (TinyWireM.available())\<close> loop at \<open>recv_now\<close>. Nothing in the sketch bounds
  it: it ends when the library reports nothing available, and \<open>None\<close> is the run in which
  that never happens.
\<close>

partial_function (option) recv_loop :: "'b twi \<Rightarrow> 'b world \<Rightarrow> 'b world option" where
  "recv_loop tw w =
     (if fst (tw_available tw w) \<noteq> 0 then
        (let w1 = snd (tw_available tw w);
             w2 = (snd (tw_receive tw w1))\<lparr>data := fst (tw_receive tw w1)\<rparr>
         in recv_loop tw (print_hex None (data w2) (Some (bytes '' '')) w2))
      else Some (snd (tw_available tw w)))"

declare recv_loop.simps [code]

text \<open>The block at label \<open>recv_now\<close> (the body of \<open>case ST_RECV\<close>).\<close>

definition recv_now :: "'b twi \<Rightarrow> u8 \<Rightarrow> 'b world \<Rightarrow> 'b world option" where
  "recv_now tw l w =
     (case recv_loop tw w of
        None \<Rightarrow> None
      | Some w1 \<Rightarrow>
          Some (goto_parse_cmd tw l
                  ((SerialUSB_write [CR, LF] w1)\<lparr>to_print := 0, state := ST_CMD\<rparr>)))"

definition goto_recv_now :: "'b twi \<Rightarrow> u8 \<Rightarrow> 'b world \<Rightarrow> 'b world option" where
  "goto_recv_now tw l w = recv_now tw l (w\<lparr>jumps := jumps w @ [L_recv_now]\<rparr>)"

definition case_CMDR :: "'b twi \<Rightarrow> u8 \<Rightarrow> 'b world \<Rightarrow> 'b world option" where
  "case_CMDR tw l w0 =
     (let w1 = w0\<lparr>ret := fst (read_hex_at (data w0) l), data := snd (read_hex_at (data w0) l)\<rparr>;
          w2 = w1\<lparr>digits := digits w1 + ret w1\<rparr>
      in if ret w2 = 0 \<and> digits w2 \<noteq> 0 then
           (let w3 = (snd (tw_requestFrom tw (addr w2) (data w2) w2))
                       \<lparr>ret := fst (tw_requestFrom tw (addr w2) (data w2) w2)\<rparr>;
                w4 = (if ret w3 \<noteq> 0
                      then (print_hex (Some (bytes ''R!'')) (ret w3) (Some [LF]) w3)\<lparr>to_print := 0\<rparr>
                      else w3)
            in goto_recv_now tw l (w4\<lparr>data := 0, digits := 0, state := ST_RECV\<rparr>))
         else if ret w2 = 0 \<and> l \<noteq> ch CHR '' '' \<and> l \<noteq> LF then
           Some (goto_parse_cmd tw l (w2\<lparr>state := ST_CMD\<rparr>))
         else Some w2)"

text \<open>The upper-casing of the character read, \<open>(unsigned char)(l - 'a') <= 'z' - 'a'\<close>.\<close>

definition to_upper :: "u8 \<Rightarrow> u8" where
  "to_upper l = (if l - ch CHR ''a'' \<le> ch CHR ''z'' - ch CHR ''a''
                 then l - (ch CHR ''a'' - ch CHR ''A'') else l)"

text \<open>
  \<open>l = SerialUSB.read()\<close> takes the character \<open>c\<close> off the input, and the next statement
  arms the keep-alive byte from it.
\<close>

definition read_char :: "u8 \<Rightarrow> u8 list \<Rightarrow> 'b world \<Rightarrow> 'b world" where
  "read_char c rest w =
     w\<lparr>serial_in := rest, to_print := (if c = CR \<or> c = LF then CR else ch CHR '' '')\<rparr>"

text \<open>
  One call of \<open>loop()\<close>. With no input it writes the pending keep-alive byte, if any, and
  returns; otherwise it reads one character, arms the keep-alive byte, upper-cases the
  character and enters the switch.
\<close>

definition loop :: "'b twi \<Rightarrow> 'b world \<Rightarrow> 'b world option" where
  "loop tw w =
     (case serial_in w of
        [] \<Rightarrow>
          Some (if to_print w \<noteq> 0
                then (SerialUSB_write [to_print w] w)\<lparr>to_print := 0\<rparr> else w)
      | c # rest \<Rightarrow>
          (let w1 = read_char c rest w;
               l = to_upper c
           in case state w1 of
                ST_CMD \<Rightarrow> Some (parse_cmd tw l w1)
              | ST_ADDR \<Rightarrow> Some (case_ADDR tw l w1)
              | ST_CMDW \<Rightarrow> Some (case_CMDW tw l w1)
              | ST_CMDR \<Rightarrow> case_CMDR tw l w1
              | ST_RECV \<Rightarrow> recv_now tw l w1))"

text \<open>\<open>loop()\<close> called \<open>n\<close> times in a row.\<close>

fun loops :: "'b twi \<Rightarrow> nat \<Rightarrow> 'b world \<Rightarrow> 'b world option" where
  "loops tw 0 w = Some w"
| "loops tw (Suc n) w = (case loop tw w of None \<Rightarrow> None | Some w1 \<Rightarrow> loops tw n w1)"

text \<open>
  The transport delivers the text \<open>s\<close>, and \<open>loop()\<close> runs once for each of its characters:
  the text is consumed character by character, with no idle call in between.
\<close>

definition feed :: "'b twi \<Rightarrow> string \<Rightarrow> 'b world \<Rightarrow> 'b world option" where
  "feed tw s w = loops tw (length s) (w\<lparr>serial_in := serial_in w @ bytes s\<rparr>)"

subsection \<open>What the bus library hands out\<close>

text \<open>
  \<open>offers tw ds b\<close>: asked now, in state \<open>b\<close>, the library reports bytes available
  and hands out exactly \<open>ds\<close>, one \<open>receive\<close> after each nonzero \<open>available\<close>, and then
  reports nothing available. \<open>drained tw n b\<close> is its state after \<open>n\<close> such rounds and
  the final \<open>available\<close>.
\<close>

fun offers :: "'b twi \<Rightarrow> u8 list \<Rightarrow> 'b \<Rightarrow> bool" where
  "offers tw [] b = (fst (available tw b) = 0)"
| "offers tw (d # ds) b =
     (fst (available tw b) \<noteq> 0 \<and> fst (receive tw (snd (available tw b))) = d \<and>
      offers tw ds (snd (receive tw (snd (available tw b)))))"

fun drained :: "'b twi \<Rightarrow> nat \<Rightarrow> 'b \<Rightarrow> 'b" where
  "drained tw 0 b = snd (available tw b)"
| "drained tw (Suc n) b = drained tw n (snd (receive tw (snd (available tw b))))"

text \<open>
  A library whose reads run dry: some measure of its state goes down with every
  \<open>receive\<close> that follows a nonzero \<open>available\<close>.
\<close>

definition runs_dry :: "'b twi \<Rightarrow> ('b \<Rightarrow> nat) \<Rightarrow> bool" where
  "runs_dry tw m =
     (\<forall>b. fst (available tw b) \<noteq> 0 \<longrightarrow> m (snd (receive tw (snd (available tw b)))) < m b)"

text \<open>The two characters \<open>print_hex\<close> writes for a byte, and a line of them as \<open>recv_now\<close> prints it.\<close>

definition hex_pair :: "u8 \<Rightarrow> u8 list" where
  "hex_pair x = [tohex (drop_bit 4 x), tohex (x AND 0xF)]"

definition hex_line :: "u8 list \<Rightarrow> u8 list" where
  "hex_line ds = concat (map (\<lambda>d. hex_pair d @ bytes '' '') ds)"

text \<open>The bus calls and the jumps a step added to the logs.\<close>

definition new_calls :: "'b world \<Rightarrow> 'b world \<Rightarrow> bus_call list" where
  "new_calls w w' = drop (length (calls w)) (calls w')"

definition new_jumps :: "'b world \<Rightarrow> 'b world \<Rightarrow> label list" where
  "new_jumps w w' = drop (length (jumps w)) (jumps w')"

fun is_Send :: "bus_call \<Rightarrow> bool" where
  "is_Send (Send d) = True"
| "is_Send c = False"

text \<open>Between two characters the digit count is 0 or 1, except while a read count is typed.\<close>

definition digits_ok :: "'b world \<Rightarrow> bool" where
  "digits_ok w = (state w = ST_CMDR \<or> digits w \<le> 1)"

subsection \<open>Simulated bus responders\<close>

text \<open>
  Modelled from the spec: the simulated bus responder of the end-to-end property, which
  the repository does not contain. One device with a bank of 256 registers answers at
  address \<open>dev\<close>. A write transaction sets the register pointer from its first byte and
  stores the following bytes with auto-increment; a read request fetches from the
  pointer on. A transaction to any other address ends with status 2.
\<close>

record sim =
  regs :: "u8 \<Rightarrow> u8"
  ptr :: u8
  target :: u8
  txbuf :: "u8 list"
  rxq :: "u8 list"

fun sim_store :: "u8 list \<Rightarrow> sim \<Rightarrow> sim" where
  "sim_store [] s = s"
| "sim_store (d # ds) s = sim_store ds (s\<lparr>regs := (regs s)(ptr s := d), ptr := ptr s + 1\<rparr>)"

fun sim_fetch :: "nat \<Rightarrow> sim \<Rightarrow> sim" where
  "sim_fetch 0 s = s"
| "sim_fetch (Suc n) s = sim_fetch n (s\<lparr>rxq := rxq s @ [regs s (ptr s)], ptr := ptr s + 1\<rparr>)"

definition sim_twi :: "u8 \<Rightarrow> sim twi" where
  "sim_twi dev =
     \<lparr> beginTransmission = (\<lambda>a s. s\<lparr>target := a, txbuf := []\<rparr>),
       send = (\<lambda>d s. s\<lparr>txbuf := txbuf s @ [d]\<rparr>),
       endTransmission = (\<lambda>s.
         if target s \<noteq> dev then (2, s\<lparr>txbuf := []\<rparr>)
         else (0, case txbuf s of [] \<Rightarrow> s
                  | r # ds \<Rightarrow> sim_store ds (s\<lparr>ptr := r, txbuf := []\<rparr>))),
       requestFrom = (\<lambda>a n s.
         if a \<noteq> dev then (2, s\<lparr>rxq := []\<rparr>)
         else (0, sim_fetch (unat n) (s\<lparr>rxq := []\<rparr>))),
       available = (\<lambda>s. (of_nat (length (rxq s)), s)),
       receive = (\<lambda>s. case rxq s of [] \<Rightarrow> (0, s) | d # ds \<Rightarrow> (d, s\<lparr>rxq := ds\<rparr>)) \<rparr>"

definition sim_zero :: sim where
  "sim_zero = \<lparr> regs = (\<lambda>_. 0), ptr = 0, target = 0, txbuf = [], rxq = [] \<rparr>"

text \<open>
  Modelled from the spec: a bus collaborator that makes the requested bytes available
  over time. A successful request for \<open>n\<close> zero bytes has at most three of them ready at
  once; the others arrive only after the library has reported nothing available.
\<close>

record slow =
  ready :: "u8 list"
  later :: "u8 list"

definition slow_twi :: "slow twi" where
  "slow_twi =
     \<lparr> beginTransmission = (\<lambda>a s. s),
       send = (\<lambda>d s. s),
       endTransmission = (\<lambda>s. (0, s)),
       requestFrom = (\<lambda>a n s.
         (0, \<lparr> ready = replicate (min 3 (unat n)) 0, later = replicate (unat n - 3) 0 \<rparr>)),
       available = (\<lambda>s.
         if ready s = [] then (0, \<lparr> ready = later s, later = [] \<rparr>)
         else (of_nat (length (ready s)), s)),
       receive = (\<lambda>s. case ready s of [] \<Rightarrow> (0, s) | d # ds \<Rightarrow> (d, s\<lparr>ready := ds\<rparr>)) \<rparr>"

text \<open>
  Modelled from the spec: a bus collaborator that reports a byte available at every
  call, so that a drain of it never ends.
\<close>

definition babble_twi :: "unit twi" where
  "babble_twi =
     \<lparr> beginTransmission = (\<lambda>a s. s), send = (\<lambda>d s. s), endTransmission = (\<lambda>s. (0, s)),
       requestFrom = (\<lambda>a n s. (0, s)), available = (\<lambda>s. (1, s)), receive = (\<lambda>s. (0, s)) \<rparr>"

abbreviation slow0 :: slow where
  "slow0 \<equiv> \<lparr> ready = [], later = [] \<rparr>"

text \<open>Several texts, one after the other, each consumed before the next arrives.\<close>

fun feeds :: "'b twi \<Rightarrow> string list \<Rightarrow> 'b world \<Rightarrow> 'b world option" where
  "feeds tw [] w = Some w"
| "feeds tw (s # ss) w = (case feed tw s w of None \<Rightarrow> None | Some w1 \<Rightarrow> feeds tw ss w1)"

text \<open>The line feed that ends a line of input.\<close>

abbreviation newline :: string where
  "newline \<equiv> [CHR 0x0A]"

subsection \<open>Predicates of the statements\<close>

definition is_upper_hex :: "u8 \<Rightarrow> bool" where
  "is_upper_hex c =
     ((ch CHR ''0'' \<le> c \<and> c \<le> ch CHR ''9'') \<or> (ch CHR ''A'' \<le> c \<and> c \<le> ch CHR ''F''))"

text \<open>In the Command state the accumulator is empty.\<close>

definition cmd_clear :: "'b world \<Rightarrow> bool" where
  "cmd_clear w = (if state w = ST_CMD then data w = 0 \<and> digits w = 0 else True)"

section \<open>Properties\<close>

lemmas leaf_defs = tw_beginTransmission_def tw_send_def tw_endTransmission_def
  tw_requestFrom_def print_hex_def SerialUSB_write_def print_help_def

lemmas step_defs = loop_def read_char_def parse_cmd_def case_ADDR_def case_CMDW_def
  case_CMDR_def goto_parse_cmd_def goto_recv_now_def recv_now_def read_hex_at_def read_hex_def
  to_upper_def leaf_defs bytes_def tohex_def

subsection \<open>The hex codec\<close>

lemma read_hex_accepts:
  "fst (read_hex inp c) = 1 \<longleftrightarrow>
     (ch CHR ''0'' \<le> c \<and> c \<le> ch CHR ''9'') \<or> (ch CHR ''A'' \<le> c \<and> c \<le> ch CHR ''F'') \<or>
     (ch CHR ''a'' \<le> c \<and> c \<le> ch CHR ''z'')"
  by (simp add: read_hex_def)

lemma read_hex_flag: "fst (read_hex inp c) = 0 \<or> fst (read_hex inp c) = 1"
  by (simp add: read_hex_def)

lemma read_hex_rejects: "fst (read_hex inp c) = 0 \<Longrightarrow> snd (read_hex inp c) = inp"
  by (auto simp: read_hex_def split: if_splits)

lemma to_upper_cases:
  "to_upper c = (if ch CHR ''a'' \<le> c \<and> c \<le> ch CHR ''z'' then c - 32 else c)"
  unfolding to_upper_def
  apply simp
  apply (simp add: word_le_nat_alt unat_sub_if' split: if_splits)
  apply unat_arith
  done

text \<open>
  \<open>loop()\<close> upper-cases every character before it calls \<open>read_hex\<close>, so from the serial
  line the digits accepted are \<open>0-9\<close>, \<open>A-F\<close> and \<open>a-f\<close> only.
\<close>

lemma read_hex_to_upper:
  "fst (read_hex inp (to_upper c)) = 1 \<longleftrightarrow>
     (ch CHR ''0'' \<le> c \<and> c \<le> ch CHR ''9'') \<or> (ch CHR ''A'' \<le> c \<and> c \<le> ch CHR ''F'') \<or>
     (ch CHR ''a'' \<le> c \<and> c \<le> ch CHR ''f'')"
  unfolding read_hex_accepts to_upper_cases
  apply (simp split: if_splits)
  apply unat_arith
  done

lemma read_hex_at_rejects: "fst (read_hex_at x c) = 0 \<Longrightarrow> snd (read_hex_at x c) = x"
  by (auto simp: read_hex_at_def read_hex_def split: if_splits)

lemma read_hex_at_flag: "fst (read_hex_at x c) = 0 \<or> fst (read_hex_at x c) = 1"
  by (simp add: read_hex_at_def read_hex_def)

text \<open>The characters \<open>S W R P ?\<close>, space, LF and CR are no hex digits.\<close>

lemma read_hex_at_letters [simp]:
  "read_hex_at x 83 = (0, x)" "read_hex_at x 87 = (0, x)" "read_hex_at x 82 = (0, x)"
  "read_hex_at x 80 = (0, x)" "read_hex_at x 63 = (0, x)" "read_hex_at x 32 = (0, x)"
  "read_hex_at x 10 = (0, x)" "read_hex_at x 13 = (0, x)"
  by (simp_all add: read_hex_at_def read_hex_def)

lemma u8_le_1: "(x :: u8) \<le> 1 \<longleftrightarrow> x = 0 \<or> x = 1"
  by (auto simp: word_le_nat_alt word_unat_eq_iff le_Suc_eq)

lemma tohex_nibble: "x < 16 \<Longrightarrow> is_upper_hex (tohex x)"
  unfolding tohex_def is_upper_hex_def
  apply (simp split: if_splits)
  apply unat_arith
  apply simp
  done

lemma hi_nibble: "drop_bit 4 (x :: u8) < 16"
proof -
  have "unat x < 256" using unsigned_less [of x, where 'a = nat] by simp
  then show ?thesis
    by (simp add: drop_bit_eq_div word_less_nat_alt unat_div)
qed

lemma lo_nibble: "(x :: u8) AND 0xF < 16"
  using word_and_le1 [of x "0xF"] by (simp add: word_less_nat_alt word_le_nat_alt)

lemma hex_pair_upper: "list_all is_upper_hex (hex_pair x)"
  by (simp add: hex_pair_def tohex_nibble hi_nibble lo_nibble)

text \<open>
  C5. The claim: the hex-digit decoder accepts exactly \<open>0-9\<close>, \<open>A-F\<close> and \<open>a-f\<close>, and for
  any other character, such as \<open>g\<close>, returns 0 and leaves the accumulator alone. The
  third range test of \<open>read_hex\<close> is \<open>'a'..'z'\<close>: on \<open>g\<close> with the accumulator at 0x01,
  it returns 1 and stores \<open>(0x01 << 4) + 16 = 0x20\<close>.
\<close>

theorem C5_read_hex_accepts_g:
  "read_hex (Some 0x01) (ch CHR ''g'') = (1, Some 0x20)"
  by (simp add: read_hex_def)

subsection \<open>What each block of the switch does to each global\<close>

lemma read_char_fields [simp]:
  "state (read_char c rest w) = state w" "ret (read_char c rest w) = ret w"
  "addr (read_char c rest w) = addr w" "data (read_char c rest w) = data w"
  "digits (read_char c rest w) = digits w"
  "to_print (read_char c rest w) = (if c = CR \<or> c = LF then CR else ch CHR '' '')"
  "wire (read_char c rest w) = wire w" "serial_in (read_char c rest w) = rest"
  "serial_out (read_char c rest w) = serial_out w" "calls (read_char c rest w) = calls w"
  "jumps (read_char c rest w) = jumps w"
  by (simp_all add: read_char_def)

lemma bytes_W [simp]: "bytes ''W!'' = [ch CHR ''W'', ch CHR ''!'']"
  and bytes_R [simp]: "bytes ''R!'' = [ch CHR ''R'', ch CHR ''!'']"
  by (simp_all add: bytes_def)

lemma parse_cmd_fields:
  "state (parse_cmd tw l w) =
     (if l = ch CHR ''S'' then ST_ADDR else if l = ch CHR ''W'' then ST_CMDW
      else if l = ch CHR ''R'' then ST_CMDR else state w)"
  "ret (parse_cmd tw l w) = ret w"
  "addr (parse_cmd tw l w) = (if l = ch CHR ''S'' then 0 else addr w)"
  "data (parse_cmd tw l w) = 0"
  "digits (parse_cmd tw l w) = 0"
  "to_print (parse_cmd tw l w) = (if l = ch CHR ''?'' then 0 else to_print w)"
  "wire (parse_cmd tw l w) =
     (if l = ch CHR ''W'' then beginTransmission tw (addr w) (wire w) else wire w)"
  "serial_in (parse_cmd tw l w) = serial_in w"
  "serial_out (parse_cmd tw l w) =
     serial_out w @ (if l = ch CHR ''?'' then help_text else [])"
  "calls (parse_cmd tw l w) =
     calls w @ (if l = ch CHR ''W'' then [BeginTransmission (addr w)] else [])"
  "jumps (parse_cmd tw l w) = jumps w"
  by (simp_all add: parse_cmd_def leaf_defs Let_def)

lemma goto_parse_cmd_fields:
  "state (goto_parse_cmd tw l w) =
     (if l = ch CHR ''S'' then ST_ADDR else if l = ch CHR ''W'' then ST_CMDW
      else if l = ch CHR ''R'' then ST_CMDR else state w)"
  "ret (goto_parse_cmd tw l w) = ret w"
  "addr (goto_parse_cmd tw l w) = (if l = ch CHR ''S'' then 0 else addr w)"
  "data (goto_parse_cmd tw l w) = 0"
  "digits (goto_parse_cmd tw l w) = 0"
  "to_print (goto_parse_cmd tw l w) = (if l = ch CHR ''?'' then 0 else to_print w)"
  "wire (goto_parse_cmd tw l w) =
     (if l = ch CHR ''W'' then beginTransmission tw (addr w) (wire w) else wire w)"
  "serial_in (goto_parse_cmd tw l w) = serial_in w"
  "serial_out (goto_parse_cmd tw l w) =
     serial_out w @ (if l = ch CHR ''?'' then help_text else [])"
  "calls (goto_parse_cmd tw l w) =
     calls w @ (if l = ch CHR ''W'' then [BeginTransmission (addr w)] else [])"
  "jumps (goto_parse_cmd tw l w) = jumps w @ [L_parse_cmd]"
  by (simp_all add: goto_parse_cmd_def parse_cmd_fields)

lemma case_ADDR_fields:
  "state (case_ADDR tw l w) =
     (if l = ch CHR ''W'' then ST_CMDW else if l = ch CHR ''R'' then ST_CMDR
      else if l = ch CHR ''?'' then ST_CMD
      else if l = ch CHR ''S'' \<or> l = ch CHR ''P'' then ST_ADDR else state w)"
  "addr (case_ADDR tw l w) =
     (if l = ch CHR ''S'' \<or> l = ch CHR ''P'' then 0 else snd (read_hex_at (addr w) l))"
  "digits (case_ADDR tw l w) =
     (if l = ch CHR ''W'' \<or> l = ch CHR ''R'' \<or> l = ch CHR ''?'' then 0 else digits w)"
  "calls (case_ADDR tw l w) =
     calls w @ (if l = ch CHR ''W'' then [BeginTransmission (addr w)] else [])"
  "jumps (case_ADDR tw l w) =
     jumps w @ (if l = ch CHR ''W'' \<or> l = ch CHR ''R'' \<or> l = ch CHR ''?''
                then [L_parse_cmd] else [])"
  "data (case_ADDR tw l w) =
     (if l = ch CHR ''W'' \<or> l = ch CHR ''R'' \<or> l = ch CHR ''?'' then 0 else data w)"
  "serial_in (case_ADDR tw l w) = serial_in w"
  by (simp_all add: case_ADDR_def goto_parse_cmd_fields Let_def read_hex_at_def read_hex_def)

lemma case_CMDW_fields:
  fixes w :: "'b world" and l :: u8 and tw :: "'b twi"
  defines "r \<equiv> fst (read_hex_at (data w) l)"
    and "d \<equiv> snd (read_hex_at (data w) l)"
  defines "sends \<equiv> (digits w + r \<noteq> 0 \<and> r = 0) \<or> digits w + r = 2"
    and "closes \<equiv> r = 0 \<and> l \<noteq> ch CHR '' '' \<and> l \<noteq> ch CHR ''W''"
  defines "s \<equiv> fst (endTransmission tw (if sends then send tw d (wire w) else wire w))"
  shows "state (case_CMDW tw l w) =
           (if closes then (if l = ch CHR ''S'' then ST_ADDR
                            else if l = ch CHR ''R'' then ST_CMDR else ST_CMD)
            else state w)"
    and "addr (case_CMDW tw l w) = (if closes \<and> l = ch CHR ''S'' then 0 else addr w)"
    and "digits (case_CMDW tw l w) = (if closes \<or> sends then 0 else digits w + r)"
    and "calls (case_CMDW tw l w) =
           calls w @ (if sends then [Send d] else []) @ (if closes then [EndTransmission] else [])"
    and "jumps (case_CMDW tw l w) = jumps w @ (if closes then [L_parse_cmd] else [])"
    and "data (case_CMDW tw l w) = (if closes \<or> sends then 0 else d)"
    and "serial_in (case_CMDW tw l w) = serial_in w"
    and "serial_out (case_CMDW tw l w) =
           serial_out w @
           (if closes \<and> s \<noteq> 0 then bytes ''W!'' @ hex_pair s @ [LF] else []) @
           (if closes \<and> l = ch CHR ''?'' then help_text else [])"
    and "to_print (case_CMDW tw l w) =
           (if closes \<and> (s \<noteq> 0 \<or> l = ch CHR ''?'') then 0 else to_print w)"
  unfolding r_def d_def sends_def closes_def s_def
  by (auto simp: case_CMDW_def goto_parse_cmd_fields leaf_defs Let_def hex_pair_def)

subsection \<open>The drain loop\<close>

lemma print_hex_line:
  "print_hex None d (Some (bytes '' '')) w = w\<lparr>serial_out := serial_out w @ hex_pair d @ bytes '' ''\<rparr>"
  by (simp add: print_hex_def SerialUSB_write_def hex_pair_def bytes_def)

lemma recv_loop_offers:
  "offers tw ds (wire w) \<Longrightarrow>
   recv_loop tw w =
     Some (w\<lparr>wire := drained tw (length ds) (wire w),
             data := last (data w # ds),
             serial_out := serial_out w @ hex_line ds,
             calls := calls w @ concat (replicate (length ds) [Available, Receive]) @ [Available]\<rparr>)"
proof (induction ds arbitrary: w)
  case Nil
  then show ?case
    by (subst recv_loop.simps) (simp add: tw_available_def hex_line_def)
next
  case (Cons d ds)
  let ?w2 = "print_hex None d (Some (bytes '' ''))
               ((snd (tw_receive tw (snd (tw_available tw w))))\<lparr>data := d\<rparr>)"
  from Cons.prems have av: "fst (tw_available tw w) \<noteq> 0"
    and rc: "fst (tw_receive tw (snd (tw_available tw w))) = d"
    and off: "offers tw ds (wire ?w2)"
    by (simp_all add: tw_available_def tw_receive_def print_hex_line)
  have "recv_loop tw w = recv_loop tw ?w2"
    by (subst recv_loop.simps) (simp add: av rc Let_def)
  also have "\<dots> = Some (?w2\<lparr>wire := drained tw (length ds) (wire ?w2),
             data := last (data ?w2 # ds),
             serial_out := serial_out ?w2 @ hex_line ds,
             calls := calls ?w2 @ concat (replicate (length ds) [Available, Receive]) @ [Available]\<rparr>)"
    by (rule Cons.IH [OF off])
  also have "\<dots> = Some (w\<lparr>wire := drained tw (length (d # ds)) (wire w),
             data := last (data w # d # ds),
             serial_out := serial_out w @ hex_line (d # ds),
             calls := calls w @ concat (replicate (length (d # ds)) [Available, Receive]) @ [Available]\<rparr>)"
    by (simp add: tw_available_def tw_receive_def print_hex_line hex_line_def)
  finally show ?case .
qed

lemma recv_loop_Some_offers:
  assumes "recv_loop tw w = Some w'"
  shows "\<exists>ds. offers tw ds (wire w)"
proof (induction rule: recv_loop.raw_induct [OF _ assms, consumes 0, case_names 1])
  case (1 rl tw w w')
  show ?case
  proof (cases "fst (available tw (wire w)) = 0")
    case True
    then have "offers tw [] (wire w)" by simp
    then show ?thesis ..
  next
    case False
    let ?w2 = "print_hex None (fst (tw_receive tw (snd (tw_available tw w)))) (Some (bytes '' ''))
               ((snd (tw_receive tw (snd (tw_available tw w))))
                  \<lparr>data := fst (tw_receive tw (snd (tw_available tw w)))\<rparr>)"
    from False "1"(2) have "rl tw ?w2 = Some w'"
      by (simp add: tw_available_def Let_def)
    then obtain ds where "offers tw ds (wire ?w2)"
      using "1" by blast
    with False have "offers tw (fst (receive tw (snd (available tw (wire w)))) # ds) (wire w)"
      by (simp add: tw_available_def tw_receive_def print_hex_line)
    then show ?thesis ..
  qed
qed

lemma runs_dry_offers:
  assumes "runs_dry tw m"
  shows "\<exists>ds. offers tw ds b"
proof (induction b rule: measure_induct_rule [where f = m])
  case (less b)
  show ?case
  proof (cases "fst (available tw b) = 0")
    case True
    then have "offers tw [] b" by simp
    then show ?thesis ..
  next
    case False
    let ?b = "snd (receive tw (snd (available tw b)))"
    from assms False have "m ?b < m b" by (simp add: runs_dry_def)
    then obtain ds where "offers tw ds ?b" using less.IH by blast
    with False have "offers tw (fst (receive tw (snd (available tw b))) # ds) b" by simp
    then show ?thesis ..
  qed
qed

lemma recv_now_offers:
  "offers tw ds (wire w) \<Longrightarrow>
   recv_now tw l w = Some (goto_parse_cmd tw l
           (w\<lparr>wire := drained tw (length ds) (wire w),
              data := last (data w # ds),
              serial_out := serial_out w @ hex_line ds @ [CR, LF],
              calls := calls w @ concat (replicate (length ds) [Available, Receive]) @ [Available],
              to_print := 0, state := ST_CMD\<rparr>))"
  by (cases w) (simp add: recv_now_def recv_loop_offers SerialUSB_write_def)

lemma recv_now_Some:
  assumes "recv_now tw l w = Some w'"
  obtains ds where "offers tw ds (wire w)"
    and "w' = goto_parse_cmd tw l
           (w\<lparr>wire := drained tw (length ds) (wire w),
              data := last (data w # ds),
              serial_out := serial_out w @ hex_line ds @ [CR, LF],
              calls := calls w @ concat (replicate (length ds) [Available, Receive]) @ [Available],
              to_print := 0, state := ST_CMD\<rparr>)"
proof -
  from assms obtain w1 where "recv_loop tw w = Some w1"
    by (auto simp: recv_now_def split: option.splits)
  then obtain ds where ds: "offers tw ds (wire w)"
    using recv_loop_Some_offers by blast
  from assms recv_now_offers [OF ds, of l] show thesis
    by (intro that [OF ds]) simp
qed

subsection \<open>One call of \<open>loop()\<close>, case by case\<close>

lemma loop_idle:
  "serial_in w = [] \<Longrightarrow>
   loop tw w = Some (if to_print w \<noteq> 0
                     then w\<lparr>to_print := 0, serial_out := serial_out w @ [to_print w]\<rparr> else w)"
  by (simp add: loop_def SerialUSB_write_def)

lemma loop_CMD:
  "serial_in w = c # rest \<Longrightarrow> state w = ST_CMD \<Longrightarrow>
   loop tw w = Some (parse_cmd tw (to_upper c) (read_char c rest w))"
  by (simp add: loop_def read_char_def Let_def)

lemma loop_ADDR:
  "serial_in w = c # rest \<Longrightarrow> state w = ST_ADDR \<Longrightarrow>
   loop tw w = Some (case_ADDR tw (to_upper c) (read_char c rest w))"
  by (simp add: loop_def read_char_def Let_def)

lemma loop_CMDW:
  "serial_in w = c # rest \<Longrightarrow> state w = ST_CMDW \<Longrightarrow>
   loop tw w = Some (case_CMDW tw (to_upper c) (read_char c rest w))"
  by (simp add: loop_def read_char_def Let_def)

lemma loop_CMDR:
  "serial_in w = c # rest \<Longrightarrow> state w = ST_CMDR \<Longrightarrow>
   loop tw w = case_CMDR tw (to_upper c) (read_char c rest w)"
  by (simp add: loop_def read_char_def Let_def)

lemma loop_RECV:
  "serial_in w = c # rest \<Longrightarrow> state w = ST_RECV \<Longrightarrow>
   loop tw w = recv_now tw (to_upper c) (read_char c rest w)"
  by (simp add: loop_def read_char_def Let_def)

lemma case_CMDR_request:
  assumes "fst (read_hex_at (data w) l) = 0" and "digits w \<noteq> 0"
  shows "case_CMDR tw l w =
     recv_now tw l
       (w\<lparr>state := ST_RECV,
          ret := fst (requestFrom tw (addr w) (data w) (wire w)),
          data := 0, digits := 0,
          to_print := (if fst (requestFrom tw (addr w) (data w) (wire w)) \<noteq> 0
                       then 0 else to_print w),
          wire := snd (requestFrom tw (addr w) (data w) (wire w)),
          serial_out := serial_out w @
             (if fst (requestFrom tw (addr w) (data w) (wire w)) \<noteq> 0
              then bytes ''R!'' @ hex_pair (fst (requestFrom tw (addr w) (data w) (wire w))) @ [LF]
              else []),
          calls := calls w @ [RequestFrom (addr w) (data w)],
          jumps := jumps w @ [L_recv_now]\<rparr>)"
  using assms read_hex_at_rejects [OF assms(1)]
  by (cases w) (simp add: case_CMDR_def goto_recv_now_def leaf_defs Let_def hex_pair_def)

lemma case_CMDR_other:
  assumes "\<not> (fst (read_hex_at (data w) l) = 0 \<and> digits w \<noteq> 0)"
  shows "case_CMDR tw l w =
     Some (if fst (read_hex_at (data w) l) = 0 \<and> l \<noteq> ch CHR '' '' \<and> l \<noteq> LF
           then goto_parse_cmd tw l (w\<lparr>state := ST_CMD, ret := 0\<rparr>)
           else w\<lparr>ret := fst (read_hex_at (data w) l), data := snd (read_hex_at (data w) l),
                  digits := digits w + fst (read_hex_at (data w) l)\<rparr>)"
  using assms read_hex_at_rejects [of "data w" l]
  by (cases w) (auto simp: case_CMDR_def Let_def goto_parse_cmd_def parse_cmd_def)

lemma loop_request:
  assumes "serial_in w = c # rest" and "state w = ST_CMDR"
    and "fst (read_hex_at (data w) (to_upper c)) = 0" and "digits w \<noteq> 0"
    and "offers tw ds (snd (requestFrom tw (addr w) (data w) (wire w)))"
  shows "loop tw w =
     Some (goto_parse_cmd tw (to_upper c)
       (w\<lparr>state := ST_CMD,
          ret := fst (requestFrom tw (addr w) (data w) (wire w)),
          data := last (0 # ds), digits := 0, to_print := 0,
          wire := drained tw (length ds) (snd (requestFrom tw (addr w) (data w) (wire w))),
          serial_in := rest,
          serial_out := serial_out w @
             (if fst (requestFrom tw (addr w) (data w) (wire w)) \<noteq> 0
              then bytes ''R!'' @ hex_pair (fst (requestFrom tw (addr w) (data w) (wire w))) @ [LF]
              else []) @ hex_line ds @ [CR, LF],
          calls := calls w @ [RequestFrom (addr w) (data w)] @
             concat (replicate (length ds) [Available, Receive]) @ [Available],
          jumps := jumps w @ [L_recv_now]\<rparr>))"
proof -
  have "loop tw w = case_CMDR tw (to_upper c) (read_char c rest w)"
    using assms(1,2) by (rule loop_CMDR)
  also have "\<dots> = recv_now tw (to_upper c)
       ((read_char c rest w)\<lparr>state := ST_RECV,
          ret := fst (requestFrom tw (addr w) (data w) (wire w)),
          data := 0, digits := 0,
          to_print := (if fst (requestFrom tw (addr w) (data w) (wire w)) \<noteq> 0
                       then 0 else to_print (read_char c rest w)),
          wire := snd (requestFrom tw (addr w) (data w) (wire w)),
          serial_out := serial_out w @
             (if fst (requestFrom tw (addr w) (data w) (wire w)) \<noteq> 0
              then bytes ''R!'' @ hex_pair (fst (requestFrom tw (addr w) (data w) (wire w))) @ [LF]
              else []),
          calls := calls w @ [RequestFrom (addr w) (data w)],
          jumps := jumps w @ [L_recv_now]\<rparr>)" (is "_ = recv_now tw _ ?X")
    using case_CMDR_request [of "read_char c rest w" "to_upper c" tw] assms(3,4) by simp
  also have "\<dots> = Some (goto_parse_cmd tw (to_upper c)
           (?X\<lparr>wire := drained tw (length ds) (wire ?X),
              data := last (data ?X # ds),
              serial_out := serial_out ?X @ hex_line ds @ [CR, LF],
              calls := calls ?X @ concat (replicate (length ds) [Available, Receive]) @ [Available],
              to_print := 0, state := ST_CMD\<rparr>))"
    using assms(5) by (intro recv_now_offers) simp
  finally show ?thesis by (cases w) (simp add: read_char_def)
qed

lemma loop_Some_cases [consumes 1, case_names idle cmd addr cmdw request cmdr recv]:
  assumes "loop tw w = Some w'"
  obtains
    (idle) "serial_in w = []"
      "w' = (if to_print w \<noteq> 0
             then w\<lparr>to_print := 0, serial_out := serial_out w @ [to_print w]\<rparr> else w)"
  | (cmd) c rest where "serial_in w = c # rest" "state w = ST_CMD"
      "w' = parse_cmd tw (to_upper c) (read_char c rest w)"
  | (addr) c rest where "serial_in w = c # rest" "state w = ST_ADDR"
      "w' = case_ADDR tw (to_upper c) (read_char c rest w)"
  | (cmdw) c rest where "serial_in w = c # rest" "state w = ST_CMDW"
      "w' = case_CMDW tw (to_upper c) (read_char c rest w)"
  | (request) c rest ds where "serial_in w = c # rest" "state w = ST_CMDR"
      "fst (read_hex_at (data w) (to_upper c)) = 0" "digits w \<noteq> 0"
      "offers tw ds (snd (requestFrom tw (addr w) (data w) (wire w)))"
      "w' = goto_parse_cmd tw (to_upper c)
       (w\<lparr>state := ST_CMD,
          ret := fst (requestFrom tw (addr w) (data w) (wire w)),
          data := last (0 # ds), digits := 0, to_print := 0,
          wire := drained tw (length ds) (snd (requestFrom tw (addr w) (data w) (wire w))),
          serial_in := rest,
          serial_out := serial_out w @
             (if fst (requestFrom tw (addr w) (data w) (wire w)) \<noteq> 0
              then bytes ''R!'' @ hex_pair (fst (requestFrom tw (addr w) (data w) (wire w))) @ [LF]
              else []) @ hex_line ds @ [CR, LF],
          calls := calls w @ [RequestFrom (addr w) (data w)] @
             concat (replicate (length ds) [Available, Receive]) @ [Available],
          jumps := jumps w @ [L_recv_now]\<rparr>)"
  | (cmdr) c rest where "serial_in w = c # rest" "state w = ST_CMDR"
      "\<not> (fst (read_hex_at (data w) (to_upper c)) = 0 \<and> digits w \<noteq> 0)"
      "w' = (if fst (read_hex_at (data w) (to_upper c)) = 0 \<and> to_upper c \<noteq> ch CHR '' '' \<and>
                to_upper c \<noteq> LF
             then goto_parse_cmd tw (to_upper c) ((read_char c rest w)\<lparr>state := ST_CMD, ret := 0\<rparr>)
             else (read_char c rest w)\<lparr>ret := fst (read_hex_at (data w) (to_upper c)),
                    data := snd (read_hex_at (data w) (to_upper c)),
                    digits := digits w + fst (read_hex_at (data w) (to_upper c))\<rparr>)"
  | (recv) c rest ds where "serial_in w = c # rest" "state w = ST_RECV"
      "offers tw ds (wire w)"
      "w' = goto_parse_cmd tw (to_upper c)
           ((read_char c rest w)\<lparr>wire := drained tw (length ds) (wire w),
              data := last (data w # ds),
              serial_out := serial_out w @ hex_line ds @ [CR, LF],
              calls := calls w @ concat (replicate (length ds) [Available, Receive]) @ [Available],
              to_print := 0, state := ST_CMD\<rparr>)"
proof (cases "serial_in w")
  case Nil
  from assms loop_idle [OF Nil, of tw] show thesis by (intro idle [OF Nil]) simp
next
  case (Cons c rest)
  show thesis
  proof (cases "state w")
    case ST_CMD
    from assms loop_CMD [OF Cons ST_CMD, of tw] show thesis by (intro cmd [OF Cons ST_CMD]) simp
  next
    case ST_ADDR
    from assms loop_ADDR [OF Cons ST_ADDR, of tw] show thesis by (intro addr [OF Cons ST_ADDR]) simp
  next
    case ST_CMDW
    from assms loop_CMDW [OF Cons ST_CMDW, of tw] show thesis by (intro cmdw [OF Cons ST_CMDW]) simp
  next
    case ST_CMDR
    show thesis
    proof (cases "fst (read_hex_at (data w) (to_upper c)) = 0 \<and> digits w \<noteq> 0")
      case True
      let ?X = "(read_char c rest w)\<lparr>state := ST_RECV,
          ret := fst (requestFrom tw (addr w) (data w) (wire w)),
          data := 0, digits := 0,
          to_print := (if fst (requestFrom tw (addr w) (data w) (wire w)) \<noteq> 0
                       then 0 else to_print (read_char c rest w)),
          wire := snd (requestFrom tw (addr w) (data w) (wire w)),
          serial_out := serial_out w @
             (if fst (requestFrom tw (addr w) (data w) (wire w)) \<noteq> 0
              then bytes ''R!'' @ hex_pair (fst (requestFrom tw (addr w) (data w) (wire w))) @ [LF]
              else []),
          calls := calls w @ [RequestFrom (addr w) (data w)],
          jumps := jumps w @ [L_recv_now]\<rparr>"
      have "loop tw w = recv_now tw (to_upper c) ?X"
        using loop_CMDR [OF Cons ST_CMDR, of tw]
          case_CMDR_request [of "read_char c rest w" "to_upper c" tw] True by simp
      with assms have "recv_now tw (to_upper c) ?X = Some w'" by simp
      then obtain ds where "offers tw ds (wire ?X)"
        by (rule recv_now_Some)
      then have off: "offers tw ds (snd (requestFrom tw (addr w) (data w) (wire w)))" by simp
      from loop_request [OF Cons ST_CMDR _ _ off] True assms
      show thesis by (intro request [OF Cons ST_CMDR _ _ off]) simp_all
    next
      case False
      with assms loop_CMDR [OF Cons ST_CMDR, of tw]
        case_CMDR_other [of "read_char c rest w" "to_upper c" tw]
      show thesis by (intro cmdr [OF Cons ST_CMDR False]) auto
    qed
  next
    case ST_RECV
    with assms loop_RECV [OF Cons ST_RECV, of tw]
    have "recv_now tw (to_upper c) (read_char c rest w) = Some w'" by simp
    then show thesis
      by (rule recv_now_Some) (rule recv [OF Cons ST_RECV], simp_all)
  qed
qed

lemma loops_idle:
  "serial_in v = [] \<Longrightarrow> to_print v = 0 \<Longrightarrow> loops tw n v = Some v"
  by (induction n) (simp_all add: loop_idle)

lemma loop_read_output:
  assumes "state w = ST_CMDR" and "serial_in w = c # rest"
    and "fst (read_hex_at (data w) (to_upper c)) = 0" and "digits w \<noteq> 0"
    and "offers tw ds (snd (requestFrom tw (addr w) (data w) (wire w)))"
  shows "map_option (\<lambda>w'. (serial_out w', to_print w', serial_in w', state w')) (loop tw w) =
     Some (serial_out w @
             (if fst (requestFrom tw (addr w) (data w) (wire w)) \<noteq> 0
              then bytes ''R!'' @ hex_pair (fst (requestFrom tw (addr w) (data w) (wire w))) @ [LF]
              else []) @
             hex_line ds @ [CR, LF] @
             (if to_upper c = ch CHR ''?'' then help_text else []),
           0, rest,
           if to_upper c = ch CHR ''S'' then ST_ADDR else if to_upper c = ch CHR ''W'' then ST_CMDW
           else if to_upper c = ch CHR ''R'' then ST_CMDR else ST_CMD)"
  by (simp add: loop_request [OF assms(2,1,3,4,5)] goto_parse_cmd_fields)

lemma loop_write_error:
  assumes "state w = ST_CMDW" and "serial_in w = c # rest"
    and "fst (read_hex_at (data w) (to_upper c)) = 0"
    and "to_upper c \<noteq> ch CHR '' ''" and "to_upper c \<noteq> ch CHR ''W''"
    and "fst (endTransmission tw (if digits w \<noteq> 0 then send tw (data w) (wire w) else wire w)) = s"
    and "s \<noteq> 0"
  shows "map_option (\<lambda>w'. (serial_out w', to_print w', state w')) (loop tw w) =
     Some (serial_out w @ bytes ''W!'' @ hex_pair s @ [LF] @
             (if to_upper c = ch CHR ''?'' then help_text else []),
           0,
           if to_upper c = ch CHR ''S'' then ST_ADDR
           else if to_upper c = ch CHR ''R'' then ST_CMDR else ST_CMD)"
  using assms(3-7) read_hex_at_rejects [OF assms(3)]
  by (auto simp: loop_CMDW [OF assms(2,1)] case_CMDW_fields)

lemma loop_returns:
  assumes "runs_dry tw m"
  shows "\<exists>w'. loop tw w = Some w'"
proof -
  have rn: "\<exists>w'. recv_now tw l v = Some w'" for l v
  proof -
    from runs_dry_offers [OF assms] obtain ds where "offers tw ds (wire v)" by blast
    from recv_now_offers [OF this] show ?thesis by simp
  qed
  show ?thesis
  proof (cases "serial_in w")
    case Nil
    then show ?thesis by (simp add: loop_def)
  next
    case (Cons c rest)
    then show ?thesis
      by (cases "state w") (simp_all add: loop_def case_CMDR_def goto_recv_now_def Let_def rn)
  qed
qed

subsection \<open>The simulated responders\<close>

lemma sim_ops [simp]:
  "beginTransmission (sim_twi dev) a s = s\<lparr>target := a, txbuf := []\<rparr>"
  "send (sim_twi dev) d s = s\<lparr>txbuf := txbuf s @ [d]\<rparr>"
  "endTransmission (sim_twi dev) s =
     (if target s \<noteq> dev then (2, s\<lparr>txbuf := []\<rparr>)
      else (0, case txbuf s of [] \<Rightarrow> s | r # ds \<Rightarrow> sim_store ds (s\<lparr>ptr := r, txbuf := []\<rparr>)))"
  "requestFrom (sim_twi dev) a n s =
     (if a \<noteq> dev then (2, s\<lparr>rxq := []\<rparr>) else (0, sim_fetch (unat n) (s\<lparr>rxq := []\<rparr>)))"
  "available (sim_twi dev) s = (of_nat (length (rxq s)), s)"
  "receive (sim_twi dev) s = (case rxq s of [] \<Rightarrow> (0, s) | d # ds \<Rightarrow> (d, s\<lparr>rxq := ds\<rparr>))"
  by (simp_all add: sim_twi_def)

lemma sim_fetch_numeral [simp]:
  "sim_fetch (numeral k) s =
     sim_fetch (pred_numeral k) (s\<lparr>rxq := rxq s @ [regs s (ptr s)], ptr := ptr s + 1\<rparr>)"
  by (simp add: numeral_eq_Suc)

lemma sim_runs_dry: "runs_dry (sim_twi dev) (\<lambda>s. length (rxq s))"
  by (auto simp: runs_dry_def split: list.splits)

lemma slow_ops [simp]:
  "beginTransmission slow_twi a s = s"
  "send slow_twi d s = s"
  "endTransmission slow_twi s = (0, s)"
  "requestFrom slow_twi a n s =
     (0, \<lparr> ready = replicate (min 3 (unat n)) 0, later = replicate (unat n - 3) 0 \<rparr>)"
  "available slow_twi s =
     (if ready s = [] then (0, \<lparr> ready = later s, later = [] \<rparr>)
      else (of_nat (length (ready s)), s))"
  "receive slow_twi s = (case ready s of [] \<Rightarrow> (0, s) | d # ds \<Rightarrow> (d, s\<lparr>ready := ds\<rparr>))"
  by (simp_all add: slow_twi_def)

lemma feeds_append:
  "feeds tw (ss @ ts) w = (case feeds tw ss w of None \<Rightarrow> None | Some w1 \<Rightarrow> feeds tw ts w1)"
  by (induction ss arbitrary: w) (simp_all split: option.splits)

lemma feed_newline:
  "serial_in w = [] \<Longrightarrow> feed tw newline w = loop tw (w\<lparr>serial_in := [LF]\<rparr>)"
  by (simp add: feed_def bytes_def split: option.splits)

lemma feeds_newline:
  assumes "feeds tw ss w = Some w1" and "serial_in w1 = []"
  shows "feeds tw (ss @ [newline]) w = loop tw (w1\<lparr>serial_in := [LF]\<rparr>)"
  using assms by (simp add: feeds_append feed_newline split: option.splits)

lemma hex_line_zeroes:
  "hex_line [0, 0, 0, 0, 0, 0, 0] = bytes ''00 00 00 00 00 00 00 ''"
  "hex_line [0, 0, 0] = bytes ''00 00 00 ''"
  by (simp_all add: hex_line_def hex_pair_def tohex_def bytes_def)

lemma replicate_numeral_Cons [simp]:
  "replicate (numeral k) x = x # replicate (pred_numeral k) x"
  by (simp add: numeral_eq_Suc)

lemmas sim_eval = feed_def step_defs Let_def init_def sim_zero_def

subsection \<open>Implicit termination of a write\<close>

text \<open>
  C1, as the code has it. From the Command state with no input pending, \<open>W3Ap\<close> and
  \<open>W3AR1\<close> each make the bus see \<open>beginTransmission\<close>, one \<open>send(0x3A)\<close> and then
  \<open>endTransmission()\<close>, in the step that meets \<open>P\<close> or \<open>R\<close>, and leave the parser in the
  state that character asks for. For \<open>W3AW\<close> the second \<open>W\<close> is a delimiter inside the
  write: the byte is sent, the transaction is not closed and no new one is begun.
\<close>

theorem C1_write_termination:
  "map_option (\<lambda>w'. (new_calls w w', state w'))
       (feed tw ''W3Ap'' (w\<lparr>state := ST_CMD, serial_in := []\<rparr>)) =
     Some ([BeginTransmission (addr w), Send 0x3A, EndTransmission], ST_CMD) \<and>
   map_option (\<lambda>w'. (new_calls w w', state w'))
       (feed tw ''W3AR1'' (w\<lparr>state := ST_CMD, serial_in := []\<rparr>)) =
     Some ([BeginTransmission (addr w), Send 0x3A, EndTransmission], ST_CMDR) \<and>
   map_option (\<lambda>w'. (new_calls w w', state w'))
       (feed tw ''W3AW'' (w\<lparr>state := ST_CMD, serial_in := []\<rparr>)) =
     Some ([BeginTransmission (addr w), Send 0x3A], ST_CMDW)"
  by (simp add: feed_def step_defs Let_def new_calls_def)

text \<open>
  C1 as stated fails for \<open>W3AW\<close>: on the simulated responder, from the initial state, the
  bus sees no \<open>endTransmission()\<close> and the parser is still in the write state.
\<close>

theorem C1_W3AW_counterexample:
  "map_option (\<lambda>w'. (calls w', state w')) (feed (sim_twi 0x68) ''W3AW'' (init sim_zero)) =
     Some ([BeginTransmission 0, Send 0x3A], ST_CMDW)"
  by (simp add: feed_def step_defs Let_def init_def)

subsection \<open>The end-to-end read\<close>

lemma sim_before_newline:
  "map_option (\<lambda>W. (state W, digits W, data W, addr W, serial_in W, serial_out W,
       fst (requestFrom (sim_twi 0x68) 0x68 7 (wire W)),
       rxq (snd (requestFrom (sim_twi 0x68) 0x68 7 (wire W)))))
     (feeds (sim_twi 0x68) [''S68W0 0P'', ''S68W0R7''] (init sim_zero)) =
   Some (ST_CMDR, 1, 7, 0x68, [], [], 0, [0, 0, 0, 0, 0, 0, 0])"
  by (simp add: feed_def step_defs Let_def init_def sim_zero_def)

lemma sim_offers_seven:
  assumes "rxq s = [0, 0, 0, 0, 0, 0, 0]"
  shows "offers (sim_twi dev) [0, 0, 0, 0, 0, 0, 0] s"
  using assms by simp

lemma sim_read_seven:
  "map_option serial_out
     (feeds (sim_twi 0x68) [''S68W0 0P'', ''S68W0R7'', newline] (init sim_zero)) =
   Some (bytes ''00 00 00 00 00 00 00 '' @ [CR, LF])"
proof -
  from sim_before_newline obtain W where
    W: "feeds (sim_twi 0x68) [''S68W0 0P'', ''S68W0R7''] (init sim_zero) = Some W"
    and p: "state W = ST_CMDR" "digits W = 1" "data W = 7" "addr W = 0x68"
      "serial_in W = []" "serial_out W = []"
      "fst (requestFrom (sim_twi 0x68) 0x68 7 (wire W)) = 0"
      "rxq (snd (requestFrom (sim_twi 0x68) 0x68 7 (wire W))) = [0, 0, 0, 0, 0, 0, 0]"
    by (cases "feeds (sim_twi 0x68) [''S68W0 0P'', ''S68W0R7''] (init sim_zero)") auto
  let ?W = "W\<lparr>serial_in := [LF]\<rparr>"
  have "feeds (sim_twi 0x68) ([''S68W0 0P'', ''S68W0R7''] @ [newline]) (init sim_zero) =
        loop (sim_twi 0x68) ?W"
    using W p(5) by (rule feeds_newline)
  moreover have "map_option (\<lambda>w'. (serial_out w', to_print w', serial_in w', state w'))
       (loop (sim_twi 0x68) ?W) =
     Some (bytes ''00 00 00 00 00 00 00 '' @ [CR, LF], 0, [], ST_CMD)"
    using loop_read_output [of ?W LF "[]" "sim_twi 0x68" "[0, 0, 0, 0, 0, 0, 0]"]
      p(1-4,6,7) sim_offers_seven [OF p(8)]
    by (simp add: hex_line_zeroes to_upper_def del: sim_ops)
  ultimately show ?thesis
    by (cases "loop (sim_twi 0x68) ?W") simp_all
qed

lemma sim_write_only:
  "map_option serial_out (feeds (sim_twi 0x68) [''S68W0 0P''] (init sim_zero)) = Some []"
  by (simp add: feed_def step_defs Let_def init_def sim_zero_def)

text \<open>
  C2, as the code has it. On the simulated responder with an all-zero register bank,
  \<open>S68W0 0P\<close> prints nothing. \<open>S68W0R7\<close> prints the seven bytes once the line feed that
  ends the line has arrived: each byte as two upper-case hex digits followed by a space,
  the last byte too, and then CR LF.
\<close>
theorem C2_end_to_end:
  "map_option serial_out (feeds (sim_twi 0x68) [''S68W0 0P''] (init sim_zero)) = Some [] \<and>
   map_option serial_out
     (feeds (sim_twi 0x68) [''S68W0 0P'', ''S68W0R7'', newline] (init sim_zero)) =
   Some (bytes ''00 00 00 00 00 00 00 '' @ [CR, LF])"
  using sim_write_only sim_read_seven by simp

text \<open>
  C2 as stated fails. The text \<open>S68W0R7\<close> alone leaves the read count unterminated, so
  nothing is requested and nothing is printed; and once the line feed has arrived the
  output has a space before CR LF, which the claimed text lacks.
\<close>
theorem C2_counterexample:
  "map_option serial_out
     (feeds (sim_twi 0x68) [''S68W0 0P'', ''S68W0R7''] (init sim_zero)) = Some [] \<and>
   map_option serial_out
     (feeds (sim_twi 0x68) [''S68W0 0P'', ''S68W0R7'', newline] (init sim_zero)) \<noteq>
   Some (bytes ''00 00 00 00 00 00 00'' @ [CR, LF])"
proof
  from sim_before_newline
  show "map_option serial_out
     (feeds (sim_twi 0x68) [''S68W0 0P'', ''S68W0R7''] (init sim_zero)) = Some []"
    by (cases "feeds (sim_twi 0x68) [''S68W0 0P'', ''S68W0R7''] (init sim_zero)") auto
  show "map_option serial_out
     (feeds (sim_twi 0x68) [''S68W0 0P'', ''S68W0R7'', newline] (init sim_zero)) \<noteq>
   Some (bytes ''00 00 00 00 00 00 00'' @ [CR, LF])"
    unfolding sim_read_seven by (simp add: bytes_def)
qed

subsection \<open>Draining a read\<close>

lemma loop_drain_only:
  assumes "loop tw u = Some u'" and "state u \<noteq> ST_RECV"
    and "Available \<in> set (new_calls u u') \<or> Receive \<in> set (new_calls u u')"
  shows "state u = ST_CMDR \<and> take 1 (new_calls u u') = [RequestFrom (addr u) (data u)]"
  using assms(1)
proof (cases rule: loop_Some_cases)
  case idle
  with assms(3) show ?thesis by (simp add: new_calls_def split: if_splits)
next
  case (cmd c rest)
  with assms(3) show ?thesis by (simp add: new_calls_def parse_cmd_fields split: if_splits)
next
  case (addr c rest)
  with assms(3) show ?thesis by (simp add: new_calls_def case_ADDR_fields split: if_splits)
next
  case (cmdw c rest)
  with assms(3) show ?thesis by (simp add: new_calls_def case_CMDW_fields split: if_splits)
next
  case (request c rest ds)
  then show ?thesis by (simp add: new_calls_def goto_parse_cmd_fields)
next
  case (cmdr c rest)
  with assms(3) show ?thesis by (simp add: new_calls_def goto_parse_cmd_fields split: if_splits)
next
  case (recv c rest ds)
  with assms(2) show ?thesis by simp
qed

lemma loop_not_RECV:
  assumes "loop tw u = Some u'" and "state u \<noteq> ST_RECV"
  shows "state u' \<noteq> ST_RECV"
  using assms(1)
proof (cases rule: loop_Some_cases)
  case idle
  with assms(2) show ?thesis by (simp split: if_splits)
next
  case (cmd c rest)
  with assms(2) show ?thesis by (simp add: parse_cmd_fields)
next
  case (addr c rest)
  then show ?thesis by (simp add: case_ADDR_fields)
next
  case (cmdw c rest)
  then show ?thesis by (simp add: case_CMDW_fields)
next
  case (request c rest ds)
  then show ?thesis by (simp add: goto_parse_cmd_fields)
next
  case (cmdr c rest)
  then show ?thesis by (simp add: goto_parse_cmd_fields)
next
  case (recv c rest ds)
  then show ?thesis by (simp add: goto_parse_cmd_fields)
qed

lemma loops_not_RECV:
  "loops tw n u = Some u' \<Longrightarrow> state u \<noteq> ST_RECV \<Longrightarrow> state u' \<noteq> ST_RECV"
proof (induction n arbitrary: u)
  case 0
  then show ?case by simp
next
  case (Suc n)
  then show ?case by (auto split: option.splits dest: loop_not_RECV)
qed

text \<open>
  C3, as the code has it. The step that meets the first non-hex character after a read
  count issues \<open>requestFrom\<close> and drains once, at that moment. When the request succeeds
  (status 0) and the library then hands out the bytes \<open>ds\<close>, the step prints one hex pair
  and a space for each byte of \<open>ds\<close>, then CR LF (and the help text if the character was
  \<open>?\<close>), clears the keep-alive byte, consumes the character and leaves for the state
  that character asks for. So the output has seven hex pairs exactly when seven bytes
  are handed out in that drain. A later polling step does not pick up bytes that arrive
  late: with no input and no keep-alive byte pending, any number of calls of \<open>loop()\<close>
  leaves the world as it is; a call of \<open>loop()\<close> asks the library for available bytes, or
  receives one, only right after a \<open>requestFrom\<close> of its own, at the end of a read count;
  and no call that starts outside the Receiving state ends in it, however many follow.
\<close>
theorem C3_read_draining:
  "(state w = ST_CMDR \<and> serial_in w = c # rest \<and>
    fst (read_hex_at (data w) (to_upper c)) = 0 \<and> digits w \<noteq> 0 \<and>
    fst (requestFrom tw (addr w) (data w) (wire w)) = 0 \<and>
    offers tw ds (snd (requestFrom tw (addr w) (data w) (wire w))) \<longrightarrow>
      map_option (\<lambda>w'. (serial_out w', to_print w', serial_in w', state w')) (loop tw w) =
        Some (serial_out w @ hex_line ds @ [CR, LF] @
                (if to_upper c = ch CHR ''?'' then help_text else []),
              0, rest,
              if to_upper c = ch CHR ''S'' then ST_ADDR
              else if to_upper c = ch CHR ''W'' then ST_CMDW
              else if to_upper c = ch CHR ''R'' then ST_CMDR else ST_CMD)) \<and>
   (serial_in v = [] \<and> to_print v = 0 \<longrightarrow> loops tw n v = Some v) \<and>
   (loop tw u = Some u' \<and> state u \<noteq> ST_RECV \<and>
    (Available \<in> set (new_calls u u') \<or> Receive \<in> set (new_calls u u')) \<longrightarrow>
      state u = ST_CMDR \<and> take 1 (new_calls u u') = [RequestFrom (addr u) (data u)]) \<and>
   (loops tw k x = Some x' \<and> state x \<noteq> ST_RECV \<longrightarrow> state x' \<noteq> ST_RECV)"
proof (intro conjI impI)
  assume "state w = ST_CMDR \<and> serial_in w = c # rest \<and>
    fst (read_hex_at (data w) (to_upper c)) = 0 \<and> digits w \<noteq> 0 \<and>
    fst (requestFrom tw (addr w) (data w) (wire w)) = 0 \<and>
    offers tw ds (snd (requestFrom tw (addr w) (data w) (wire w)))"
  then show "map_option (\<lambda>w'. (serial_out w', to_print w', serial_in w', state w')) (loop tw w) =
        Some (serial_out w @ hex_line ds @ [CR, LF] @
                (if to_upper c = ch CHR ''?'' then help_text else []),
              0, rest,
              if to_upper c = ch CHR ''S'' then ST_ADDR
              else if to_upper c = ch CHR ''W'' then ST_CMDW
              else if to_upper c = ch CHR ''R'' then ST_CMDR else ST_CMD)"
    using loop_read_output [of w c rest tw ds] by simp
next
  assume "serial_in v = [] \<and> to_print v = 0"
  then show "loops tw n v = Some v" by (simp add: loops_idle)
next
  assume a: "loop tw u = Some u' \<and> state u \<noteq> ST_RECV \<and>
    (Available \<in> set (new_calls u u') \<or> Receive \<in> set (new_calls u u'))"
  with loop_drain_only [of tw u u'] show "state u = ST_CMDR" by blast
  from a loop_drain_only [of tw u u']
  show "take 1 (new_calls u u') = [RequestFrom (addr u) (data u)]" by blast
next
  assume "loops tw k x = Some x' \<and> state x \<noteq> ST_RECV"
  then show "state x' \<noteq> ST_RECV" using loops_not_RECV by blast
qed

lemma slow_before_newline:
  "feeds slow_twi [''R7''] (init slow0) =
     Some ((init slow0)\<lparr>state := ST_CMDR, ret := 1, data := 7, digits := 1,
                        to_print := ch CHR '' ''\<rparr>)"
  by (simp add: feed_def step_defs Let_def init_def)

lemma slow_offers_three:
  "offers slow_twi [0, 0, 0] (snd (requestFrom slow_twi 0 7 slow0))"
  by simp

lemma slow_read:
  "map_option (\<lambda>w. (ret w, take 1 (calls w), serial_out w, to_print w, serial_in w))
     (feeds slow_twi [''R7'', newline] (init slow0)) =
   Some (0, [RequestFrom 0 7], bytes ''00 00 00 '' @ [CR, LF], 0, [])"
proof -
  let ?W = "(init slow0)\<lparr>state := ST_CMDR, ret := 1, data := 7, digits := 1,
                        to_print := ch CHR '' '', serial_in := [LF]\<rparr>"
  have "feeds slow_twi ([''R7''] @ [newline]) (init slow0) = loop slow_twi ?W"
    using feeds_newline [OF slow_before_newline] by (simp add: init_def)
  also have "\<dots> = Some (goto_parse_cmd slow_twi (to_upper LF)
       (?W\<lparr>state := ST_CMD,
          ret := fst (requestFrom slow_twi (addr ?W) (data ?W) (wire ?W)),
          data := last (0 # [0, 0, 0]), digits := 0, to_print := 0,
          wire := drained slow_twi (length [0 :: u8, 0, 0])
                    (snd (requestFrom slow_twi (addr ?W) (data ?W) (wire ?W))),
          serial_in := [],
          serial_out := serial_out ?W @
             (if fst (requestFrom slow_twi (addr ?W) (data ?W) (wire ?W)) \<noteq> 0
              then bytes ''R!'' @ hex_pair (fst (requestFrom slow_twi (addr ?W) (data ?W) (wire ?W))) @ [LF]
              else []) @ hex_line [0, 0, 0] @ [CR, LF],
          calls := calls ?W @ [RequestFrom (addr ?W) (data ?W)] @
             concat (replicate (length [0 :: u8, 0, 0]) [Available, Receive]) @ [Available],
          jumps := jumps ?W @ [L_recv_now]\<rparr>))"
    by (rule loop_request) (simp_all add: init_def to_upper_def)
  finally show ?thesis
    by (simp add: goto_parse_cmd_fields init_def hex_line_zeroes to_upper_def)
qed

text \<open>
  C3 as stated fails on a collaborator that spreads the bytes over time. The request for
  seven bytes succeeds (status 0, kept in \<open>ret\<close>), three bytes are ready when the drain
  runs, and the output has three hex pairs; five further polling steps add nothing.
\<close>
theorem C3_counterexample:
  "map_option (\<lambda>w. (ret w, take 1 (calls w), serial_out w))
     (feeds slow_twi [''R7'', newline] (init slow0)) =
     Some (0, [RequestFrom 0 7], bytes ''00 00 00 '' @ [CR, LF]) \<and>
   map_option serial_out
     (Option.bind (feeds slow_twi [''R7'', newline] (init slow0)) (loops slow_twi 5)) =
     Some (bytes ''00 00 00 '' @ [CR, LF])"
proof -
  from slow_read obtain w where
    w: "feeds slow_twi [''R7'', newline] (init slow0) = Some w"
    and p: "ret w = 0" "take 1 (calls w) = [RequestFrom 0 7]"
      "serial_out w = bytes ''00 00 00 '' @ [CR, LF]" "to_print w = 0" "serial_in w = []"
    by (cases "feeds slow_twi [''R7'', newline] (init slow0)") auto
  from p(4,5) have "loops slow_twi 5 w = Some w" by (simp add: loops_idle)
  with w p show ?thesis by simp
qed

lemma slow_step:
  "map_option (\<lambda>w'. (Available \<in> set (new_calls
        ((init slow0)\<lparr>state := ST_CMDR, data := 7, digits := 1, serial_in := [LF]\<rparr>) w')))
     (loop slow_twi ((init slow0)\<lparr>state := ST_CMDR, data := 7, digits := 1, serial_in := [LF]\<rparr>)) =
   Some True"
proof -
  let ?W = "(init slow0)\<lparr>state := ST_CMDR, data := 7, digits := 1, serial_in := [LF]\<rparr>"
  have "loop slow_twi ?W = Some (goto_parse_cmd slow_twi (to_upper LF)
       (?W\<lparr>state := ST_CMD,
          ret := fst (requestFrom slow_twi (addr ?W) (data ?W) (wire ?W)),
          data := last (0 # [0, 0, 0]), digits := 0, to_print := 0,
          wire := drained slow_twi (length [0 :: u8, 0, 0])
                    (snd (requestFrom slow_twi (addr ?W) (data ?W) (wire ?W))),
          serial_in := [],
          serial_out := serial_out ?W @
             (if fst (requestFrom slow_twi (addr ?W) (data ?W) (wire ?W)) \<noteq> 0
              then bytes ''R!'' @ hex_pair (fst (requestFrom slow_twi (addr ?W) (data ?W) (wire ?W))) @ [LF]
              else []) @ hex_line [0, 0, 0] @ [CR, LF],
          calls := calls ?W @ [RequestFrom (addr ?W) (data ?W)] @
             concat (replicate (length [0 :: u8, 0, 0]) [Available, Receive]) @ [Available],
          jumps := jumps ?W @ [L_recv_now]\<rparr>))"
    by (rule loop_request) (simp_all add: init_def to_upper_def)
  then show ?thesis
    by (simp add: goto_parse_cmd_fields init_def new_calls_def to_upper_def)
qed

text \<open>
  C3 at a concrete input: the slow collaborator, a read count of 7 typed, a line feed
  arriving; and five idle calls from the initial state.
\<close>
theorem C3_witness:
  "offers slow_twi [0, 0, 0] (snd (requestFrom slow_twi 0 7 slow0)) \<and>
   map_option (\<lambda>w'. (serial_out w', to_print w', serial_in w', state w'))
     (loop slow_twi ((init slow0)\<lparr>state := ST_CMDR, data := 7, digits := 1, serial_in := [LF]\<rparr>)) =
     Some (bytes ''00 00 00 '' @ [CR, LF], 0, [], ST_CMD) \<and>
   loops slow_twi 5 (init slow0) = Some (init slow0) \<and>
   map_option (\<lambda>w'. (Available \<in> set (new_calls
        ((init slow0)\<lparr>state := ST_CMDR, data := 7, digits := 1, serial_in := [LF]\<rparr>) w'),
        take 1 (new_calls
        ((init slow0)\<lparr>state := ST_CMDR, data := 7, digits := 1, serial_in := [LF]\<rparr>) w')))
     (loop slow_twi ((init slow0)\<lparr>state := ST_CMDR, data := 7, digits := 1, serial_in := [LF]\<rparr>)) =
     Some (True, [RequestFrom 0 7]) \<and>
   map_option (\<lambda>w'. state w' = ST_RECV)
     (loops slow_twi 1
        ((init slow0)\<lparr>state := ST_CMDR, data := 7, digits := 1, serial_in := [LF]\<rparr>)) =
     Some False"
proof -
  let ?W = "(init slow0)\<lparr>state := ST_CMDR, data := 7, digits := 1, serial_in := [LF]\<rparr>"
  from slow_step obtain u' where u': "loop slow_twi ?W = Some u'"
    and av: "Available \<in> set (new_calls ?W u')"
    by (cases "loop slow_twi ?W") auto
  note th = C3_read_draining [where w = ?W and c = LF and rest = "[]" and tw = slow_twi
      and ds = "[0, 0, 0]" and v = "init slow0" and n = 5 and u = ?W and u' = u'
      and k = 1 and x = ?W and x' = u']
  have 1: "offers slow_twi [0, 0, 0] (snd (requestFrom slow_twi 0 7 slow0))" by simp
  from th have 2: "map_option (\<lambda>w'. (serial_out w', to_print w', serial_in w', state w'))
     (loop slow_twi ?W) = Some (bytes ''00 00 00 '' @ [CR, LF], 0, [], ST_CMD)"
    by (simp add: init_def to_upper_def hex_line_zeroes)
  from th have 3: "loops slow_twi 5 (init slow0) = Some (init slow0)"
    by (simp add: init_def)
  from th u' av have 4: "take 1 (new_calls ?W u') = [RequestFrom 0 7]"
    by (simp add: init_def)
  from u' have l1: "loops slow_twi 1 ?W = Some u'" by simp
  with th have 5: "state u' \<noteq> ST_RECV" by (simp add: init_def)
  from 1 2 3 4 5 u' av l1 show ?thesis by simp
qed

subsection \<open>Bus errors\<close>

text \<open>
  C4, as the code has it. When \<open>endTransmission()\<close> returns a nonzero status \<open>s\<close> the step
  prints \<open>W!\<close>, the two upper-case hex digits of \<open>s\<close> and one LF (no CR); when
  \<open>requestFrom()\<close> returns a nonzero \<open>s\<close> it prints \<open>R!\<close>, the two digits and one LF, and
  then still drains what the library hands out and ends the line with CR LF. In both
  cases the keep-alive byte is cleared for the step and the character that ended the
  command is taken as the start of the next one (the help text follows if it was \<open>?\<close>).
  For \<open>s = 2\<close> the two digits are \<open>02\<close>.
\<close>
theorem C4_error_token:
  "(state w = ST_CMDW \<and> serial_in w = c # rest \<and>
    fst (read_hex_at (data w) (to_upper c)) = 0 \<and>
    to_upper c \<noteq> ch CHR '' '' \<and> to_upper c \<noteq> ch CHR ''W'' \<and>
    fst (endTransmission tw (if digits w \<noteq> 0 then send tw (data w) (wire w) else wire w)) = s \<and>
    s \<noteq> 0 \<longrightarrow>
      map_option (\<lambda>w'. (serial_out w', to_print w', state w')) (loop tw w) =
        Some (serial_out w @ bytes ''W!'' @ hex_pair s @ [LF] @
                (if to_upper c = ch CHR ''?'' then help_text else []),
              0,
              if to_upper c = ch CHR ''S'' then ST_ADDR
              else if to_upper c = ch CHR ''R'' then ST_CMDR else ST_CMD)) \<and>
   (state w = ST_CMDR \<and> serial_in w = c # rest \<and>
    fst (read_hex_at (data w) (to_upper c)) = 0 \<and> digits w \<noteq> 0 \<and>
    fst (requestFrom tw (addr w) (data w) (wire w)) = s \<and> s \<noteq> 0 \<and>
    offers tw ds (snd (requestFrom tw (addr w) (data w) (wire w))) \<longrightarrow>
      map_option (\<lambda>w'. (serial_out w', to_print w', state w')) (loop tw w) =
        Some (serial_out w @ bytes ''R!'' @ hex_pair s @ [LF] @ hex_line ds @ [CR, LF] @
                (if to_upper c = ch CHR ''?'' then help_text else []),
              0,
              if to_upper c = ch CHR ''S'' then ST_ADDR
              else if to_upper c = ch CHR ''W'' then ST_CMDW
              else if to_upper c = ch CHR ''R'' then ST_CMDR else ST_CMD)) \<and>
   list_all is_upper_hex (hex_pair s) \<and> hex_pair 2 = bytes ''02''"
proof (intro conjI impI)
  assume "state w = ST_CMDW \<and> serial_in w = c # rest \<and>
    fst (read_hex_at (data w) (to_upper c)) = 0 \<and>
    to_upper c \<noteq> ch CHR '' '' \<and> to_upper c \<noteq> ch CHR ''W'' \<and>
    fst (endTransmission tw (if digits w \<noteq> 0 then send tw (data w) (wire w) else wire w)) = s \<and>
    s \<noteq> 0"
  then show "map_option (\<lambda>w'. (serial_out w', to_print w', state w')) (loop tw w) =
        Some (serial_out w @ bytes ''W!'' @ hex_pair s @ [LF] @
                (if to_upper c = ch CHR ''?'' then help_text else []),
              0,
              if to_upper c = ch CHR ''S'' then ST_ADDR
              else if to_upper c = ch CHR ''R'' then ST_CMDR else ST_CMD)"
    using loop_write_error [of w c rest tw s] by blast
next
  assume a: "state w = ST_CMDR \<and> serial_in w = c # rest \<and>
    fst (read_hex_at (data w) (to_upper c)) = 0 \<and> digits w \<noteq> 0 \<and>
    fst (requestFrom tw (addr w) (data w) (wire w)) = s \<and> s \<noteq> 0 \<and>
    offers tw ds (snd (requestFrom tw (addr w) (data w) (wire w)))"
  then have "map_option (\<lambda>w'. (serial_out w', to_print w', serial_in w', state w')) (loop tw w) =
     Some (serial_out w @ (bytes ''R!'' @ hex_pair s @ [LF]) @ hex_line ds @ [CR, LF] @
             (if to_upper c = ch CHR ''?'' then help_text else []),
           0, rest,
           if to_upper c = ch CHR ''S'' then ST_ADDR else if to_upper c = ch CHR ''W'' then ST_CMDW
           else if to_upper c = ch CHR ''R'' then ST_CMDR else ST_CMD)"
    using loop_read_output [of w c rest tw ds] by simp
  then show "map_option (\<lambda>w'. (serial_out w', to_print w', state w')) (loop tw w) =
        Some (serial_out w @ bytes ''R!'' @ hex_pair s @ [LF] @ hex_line ds @ [CR, LF] @
                (if to_upper c = ch CHR ''?'' then help_text else []),
              0,
              if to_upper c = ch CHR ''S'' then ST_ADDR
              else if to_upper c = ch CHR ''W'' then ST_CMDW
              else if to_upper c = ch CHR ''R'' then ST_CMDR else ST_CMD)"
    by (cases "loop tw w") simp_all
next
  show "list_all is_upper_hex (hex_pair s)" by (rule hex_pair_upper)
next
  show "hex_pair 2 = bytes ''02''" by (simp add: hex_pair_def tohex_def bytes_def)
qed

text \<open>
  C4 as stated fails in its last part: with \<open>endTransmission()\<close> returning 2 (no device at
  address 0 on the simulated bus) the output of \<open>WP\<close> is \<open>W!02\<close> and LF, not \<open>W!02\<close> and
  CR LF.
\<close>
theorem C4_counterexample:
  "map_option serial_out (feed (sim_twi 0x68) ''WP'' (init sim_zero)) =
     Some (bytes ''W!02'' @ [LF]) \<and>
   bytes ''W!02'' @ [LF] \<noteq> bytes ''W!02'' @ [CR, LF]"
  by (simp add: feed_def step_defs Let_def init_def sim_zero_def)

text \<open>
  C4 at concrete inputs: a \<open>P\<close> closing a write, and a line feed ending a read count, both
  at address 0 of the simulated bus, where no device answers (status 2).
\<close>
theorem C4_witness:
  "map_option (\<lambda>w'. (serial_out w', to_print w', state w'))
     (loop (sim_twi 0x68) ((init sim_zero)\<lparr>state := ST_CMDW, serial_in := bytes ''P''\<rparr>)) =
     Some (bytes ''W!02'' @ [LF], 0, ST_CMD) \<and>
   map_option (\<lambda>w'. (serial_out w', to_print w', state w'))
     (loop (sim_twi 0x68)
        ((init sim_zero)\<lparr>state := ST_CMDR, data := 1, digits := 1, serial_in := [LF]\<rparr>)) =
     Some (bytes ''R!02'' @ [LF, CR, LF], 0, ST_CMD)"
  using
    C4_error_token [of "(init sim_zero)\<lparr>state := ST_CMDW, serial_in := bytes ''P''\<rparr>"
      "ch CHR ''P''" "[]" "sim_twi 0x68" 2]
    C4_error_token [of "(init sim_zero)\<lparr>state := ST_CMDR, data := 1, digits := 1, serial_in := [LF]\<rparr>"
      LF "[]" "sim_twi 0x68" 2 "[]"]
  by (simp add: init_def sim_zero_def to_upper_def bytes_def hex_pair_def tohex_def hex_line_def)

subsection \<open>The bus address\<close>

lemma loop_addr:
  assumes "loop tw w = Some w'"
  shows "addr w' =
     (case serial_in w of
        [] \<Rightarrow> addr w
      | c # _ \<Rightarrow>
          if state w = ST_ADDR then
            (if to_upper c = ch CHR ''S'' \<or> to_upper c = ch CHR ''P'' then 0
             else snd (read_hex_at (addr w) (to_upper c)))
          else if to_upper c = ch CHR ''S'' then 0 else addr w)"
  using assms
proof (cases rule: loop_Some_cases)
  case idle
  then show ?thesis by simp
next
  case (cmd c rest)
  then show ?thesis by (simp add: parse_cmd_fields)
next
  case (addr c rest)
  then show ?thesis by (simp add: case_ADDR_fields)
next
  case (cmdw c rest)
  then show ?thesis by (auto simp: case_CMDW_fields)
next
  case (request c rest ds)
  then show ?thesis by (simp add: goto_parse_cmd_fields)
next
  case (cmdr c rest)
  then show ?thesis by (auto simp: goto_parse_cmd_fields)
next
  case (recv c rest ds)
  then show ?thesis by (simp add: goto_parse_cmd_fields)
qed

lemma loop_state_ADDR:
  assumes "loop tw w = Some w'" and "state w \<noteq> ST_ADDR" and "state w' = ST_ADDR"
  shows "\<exists>c rest. serial_in w = c # rest \<and> to_upper c = ch CHR ''S''"
  using assms(1)
proof (cases rule: loop_Some_cases)
  case idle
  with assms(2,3) show ?thesis by (simp split: if_splits)
next
  case (cmd c rest)
  with assms(2,3) show ?thesis by (simp add: parse_cmd_fields split: if_splits)
next
  case (addr c rest)
  with assms(2,3) show ?thesis by simp
next
  case (cmdw c rest)
  with assms(2,3) show ?thesis by (simp add: case_CMDW_fields split: if_splits)
next
  case (request c rest ds)
  with assms(2,3) show ?thesis by (simp add: goto_parse_cmd_fields split: if_splits)
next
  case (cmdr c rest)
  with assms(2,3) show ?thesis by (simp add: goto_parse_cmd_fields split: if_splits)
next
  case (recv c rest ds)
  with assms(2,3) show ?thesis by (simp add: goto_parse_cmd_fields split: if_splits)
qed

lemma loop_serial_in:
  assumes "loop tw w = Some w'"
  shows "serial_in w' = tl (serial_in w)"
  using assms
proof (cases rule: loop_Some_cases)
  case idle
  then show ?thesis by simp
next
  case (cmd c rest)
  then show ?thesis by (simp add: parse_cmd_fields)
next
  case (addr c rest)
  then show ?thesis by (simp add: case_ADDR_fields)
next
  case (cmdw c rest)
  then show ?thesis by (simp add: case_CMDW_fields)
next
  case (request c rest ds)
  then show ?thesis by (simp add: goto_parse_cmd_fields)
next
  case (cmdr c rest)
  then show ?thesis by (simp add: goto_parse_cmd_fields)
next
  case (recv c rest ds)
  then show ?thesis by (simp add: goto_parse_cmd_fields)
qed

lemma loops_addr_kept:
  "loops tw n w = Some w' \<Longrightarrow> state w \<noteq> ST_ADDR \<Longrightarrow>
   \<forall>c\<in>set (serial_in w). to_upper c \<noteq> ch CHR ''S'' \<Longrightarrow>
   addr w' = addr w \<and> state w' \<noteq> ST_ADDR"
proof (induction n arbitrary: w)
  case 0
  then show ?case by simp
next
  case (Suc n)
  from Suc.prems(1) obtain w1 where w1: "loop tw w = Some w1" and rest: "loops tw n w1 = Some w'"
    by (auto split: option.splits)
  from Suc.prems(3) loop_addr [OF w1] Suc.prems(2) have a: "addr w1 = addr w"
    by (auto split: list.splits)
  from Suc.prems(2,3) loop_state_ADDR [OF w1] have s: "state w1 \<noteq> ST_ADDR"
    by fastforce
  from loop_serial_in [OF w1] Suc.prems(3)
  have i: "\<forall>c\<in>set (serial_in w1). to_upper c \<noteq> ch CHR ''S''"
    by (cases "serial_in w") auto
  from Suc.IH [OF rest s i] a show ?case by simp
qed

text \<open>
  C6, as the code has it. The address is a byte, 0 to 255: nothing masks it to 7 bits.
  One call of \<open>loop()\<close> changes it only in the Address state (a hex digit shifts in, \<open>S\<close> or
  \<open>P\<close> resets it to 0) or on an \<open>S\<close> that starts an address (reset to 0); every other step
  keeps it. So from any state but Address, input without \<open>S\<close> or \<open>s\<close> keeps the address
  through any number of steps, whatever \<open>W\<close> and \<open>R\<close> commands it holds.
\<close>
theorem C6_bus_address:
  "(loop tw w = Some w' \<longrightarrow>
      addr w' =
        (case serial_in w of
           [] \<Rightarrow> addr w
         | c # _ \<Rightarrow>
             if state w = ST_ADDR then
               (if to_upper c = ch CHR ''S'' \<or> to_upper c = ch CHR ''P'' then 0
                else snd (read_hex_at (addr w) (to_upper c)))
             else if to_upper c = ch CHR ''S'' then 0 else addr w)) \<and>
   (loops tw n w = Some w' \<and> state w \<noteq> ST_ADDR \<and>
    (\<forall>c\<in>set (serial_in w). to_upper c \<noteq> ch CHR ''S'') \<longrightarrow> addr w' = addr w)"
  using loop_addr [of tw w w'] loops_addr_kept [of tw n w w'] by blast

text \<open>
  C6 as stated fails in its range: after \<open>SFF\<close> the address is 0xFF, above 127.
\<close>
theorem C6_counterexample:
  "map_option (\<lambda>w. (addr w, addr w \<le> 127)) (feed (sim_twi 0x68) ''SFF'' (init sim_zero)) =
     Some (0xFF, False)"
  by (simp add: sim_eval)

text \<open>
  C6 at concrete inputs: the digit \<open>8\<close> after \<open>S6\<close>, and the text \<open>W0R\<close> at address 0x68.
\<close>
theorem C6_witness:
  "map_option addr
     (loop (sim_twi 0x68) ((init sim_zero)\<lparr>state := ST_ADDR, addr := 6, serial_in := bytes ''8''\<rparr>)) =
     Some 0x68 \<and>
   list_all (\<lambda>c. to_upper c \<noteq> ch CHR ''S'') (bytes ''W0R'') \<and>
   map_option addr
     (loops (sim_twi 0x68) 3 ((init sim_zero)\<lparr>addr := 0x68, serial_in := bytes ''W0R''\<rparr>)) =
     Some 0x68"
proof -
  let ?W1 = "(init sim_zero)\<lparr>state := ST_ADDR, addr := 6, serial_in := bytes ''8''\<rparr>"
  let ?W2 = "(init sim_zero)\<lparr>addr := 0x68, serial_in := bytes ''W0R''\<rparr>"
  obtain w1 where w1: "loop (sim_twi 0x68) ?W1 = Some w1"
    by (simp add: sim_eval)
  obtain w2 where w2: "loops (sim_twi 0x68) 3 ?W2 = Some w2"
    by (simp add: sim_eval numeral_3_eq_3)
  have b: "\<forall>c\<in>set (bytes ''W0R''). to_upper c \<noteq> ch CHR ''S''"
    by (simp add: bytes_def to_upper_def)
  from C6_bus_address [of "sim_twi 0x68" ?W1 w1] w1 have "addr w1 = 0x68"
    by (simp add: init_def bytes_def to_upper_def read_hex_at_def read_hex_def)
  moreover from C6_bus_address [of "sim_twi 0x68" ?W2 w2 3] w2 b have "addr w2 = 0x68"
    by (simp add: init_def)
  ultimately show ?thesis using w1 w2 b by (simp add: list_all_iff)
qed

subsection \<open>The nibble accumulator\<close>

lemma loop_digits_ok:
  assumes "loop tw w = Some w'" and "digits_ok w"
  shows "digits_ok w'"
  using assms(1)
proof (cases rule: loop_Some_cases)
  case idle
  with assms(2) show ?thesis by (simp add: digits_ok_def)
next
  case (cmd c rest)
  then show ?thesis by (simp add: digits_ok_def parse_cmd_fields)
next
  case (addr c rest)
  with assms(2) show ?thesis by (simp add: digits_ok_def case_ADDR_fields)
next
  case (cmdw c rest)
  with assms(2) read_hex_at_flag [of "data w" "to_upper c"] show ?thesis
    by (auto simp: digits_ok_def case_CMDW_fields u8_le_1)
next
  case (request c rest ds)
  then show ?thesis by (simp add: digits_ok_def goto_parse_cmd_fields)
next
  case (cmdr c rest)
  then show ?thesis by (simp add: digits_ok_def goto_parse_cmd_fields)
next
  case (recv c rest ds)
  then show ?thesis by (simp add: digits_ok_def goto_parse_cmd_fields)
qed

lemma loop_CMDW_sends:
  assumes "state w = ST_CMDW" and "digits w \<le> 1" and "serial_in w = c # rest"
  shows "map_option (\<lambda>w'. filter is_Send (new_calls w w')) (loop tw w) =
           Some (if digits w = 1 then [Send (snd (read_hex_at (data w) (to_upper c)))] else [])"
  using assms(2) read_hex_at_flag [of "data w" "to_upper c"]
  by (auto simp: loop_CMDW [OF assms(3,1)] new_calls_def case_CMDW_fields u8_le_1)

lemma loop_CMDR_digit:
  assumes "state w = ST_CMDR" and "serial_in w = c # rest"
    and "fst (read_hex_at (data w) (to_upper c)) = 1"
  shows "map_option (\<lambda>w'. (state w', digits w', new_calls w w')) (loop tw w) =
           Some (ST_CMDR, digits w + 1, [])"
  using assms(1,3)
  by (simp add: loop_CMDR [OF assms(2,1)] case_CMDR_other new_calls_def)

lemma loop_CMDR_count:
  assumes "state w = ST_CMDR" and "serial_in w = c # rest"
    and "fst (read_hex_at (data w) (to_upper c)) = 0" and "digits w \<noteq> 0"
    and "loop tw w = Some w'"
  shows "take 1 (new_calls w w') = [RequestFrom (addr w) (data w)] \<and>
         RequestFrom (addr w) (data w) \<notin> set (drop 1 (new_calls w w')) \<and> digits w' = 0"
  using assms(5)
proof (cases rule: loop_Some_cases)
  case (request c' rest' ds)
  then show ?thesis by (simp add: new_calls_def goto_parse_cmd_fields)
qed (use assms in simp_all)

lemma W5P:
  "map_option (new_calls w) (feed tw ''W5P'' (w\<lparr>state := ST_CMD, serial_in := []\<rparr>)) =
     Some [BeginTransmission (addr w), Send 0x05, EndTransmission]"
  by (simp add: feed_def step_defs Let_def new_calls_def)

text \<open>
  C7, as the code has it. Between two characters the digit count is 0 or 1 in every
  state but ReadCountAccumulate, and a step keeps that. In WriteAccumulate a step sends
  exactly one byte when it starts with one digit pending (the second digit completes the
  byte, or a non-hex character flushes the single digit), and none otherwise. In
  ReadCountAccumulate every accepted digit adds one to the count of digits, with no cap
  at 2 (the count wraps at 256); the first non-hex character after at least one digit
  uses the accumulated byte once, as the count of the single \<open>requestFrom\<close>, and clears
  the digits. \<open>W5P\<close> sends exactly one byte, 0x05, and then closes.
\<close>
theorem C7_nibble_accumulator:
  "(digits_ok w \<and> loop tw w = Some w' \<longrightarrow> digits_ok w') \<and>
   (state w = ST_CMDW \<and> digits w \<le> 1 \<and> serial_in w = c # rest \<longrightarrow>
      map_option (\<lambda>w'. filter is_Send (new_calls w w')) (loop tw w) =
        Some (if digits w = 1 then [Send (snd (read_hex_at (data w) (to_upper c)))] else [])) \<and>
   (state w = ST_CMDR \<and> serial_in w = c # rest \<and>
    fst (read_hex_at (data w) (to_upper c)) = 1 \<longrightarrow>
      map_option (\<lambda>w'. (state w', digits w', new_calls w w')) (loop tw w) =
        Some (ST_CMDR, digits w + 1, [])) \<and>
   (state w = ST_CMDR \<and> serial_in w = c # rest \<and>
    fst (read_hex_at (data w) (to_upper c)) = 0 \<and> digits w \<noteq> 0 \<and> loop tw w = Some w' \<longrightarrow>
      take 1 (new_calls w w') = [RequestFrom (addr w) (data w)] \<and>
      RequestFrom (addr w) (data w) \<notin> set (drop 1 (new_calls w w')) \<and> digits w' = 0) \<and>
   map_option (new_calls w0) (feed tw ''W5P'' (w0\<lparr>state := ST_CMD, serial_in := []\<rparr>)) =
     Some [BeginTransmission (addr w0), Send 0x05, EndTransmission]"
  using loop_digits_ok [of tw w w'] loop_CMDW_sends [of w c rest tw]
    loop_CMDR_digit [of w c rest tw] loop_CMDR_count [of w c rest tw w'] W5P [of w0 tw]
  by blast

text \<open>
  C7 as stated fails in its range: after \<open>R123\<close> the digit count is 3.
\<close>
theorem C7_counterexample:
  "map_option (\<lambda>w. (state w, digits w, digits w \<le> 2))
     (feed (sim_twi 0x68) ''R123'' (init sim_zero)) = Some (ST_CMDR, 3, False)"
  by (simp add: sim_eval)

text \<open>
  C7 at concrete inputs: the second digit of a write byte, the third digit of a read
  count, and a line feed after a three-digit read count.
\<close>
theorem C7_witness:
  "map_option digits_ok
     (loop (sim_twi 0x68)
        ((init sim_zero)\<lparr>state := ST_CMDW, data := 5, digits := 1, serial_in := bytes ''A''\<rparr>)) =
     Some True \<and>
   map_option (\<lambda>w'. filter is_Send
        (new_calls ((init sim_zero)\<lparr>state := ST_CMDW, data := 5, digits := 1,
                                    serial_in := bytes ''A''\<rparr>) w'))
     (loop (sim_twi 0x68)
        ((init sim_zero)\<lparr>state := ST_CMDW, data := 5, digits := 1, serial_in := bytes ''A''\<rparr>)) =
     Some [Send 0x5A] \<and>
   map_option digits
     (loop (sim_twi 0x68)
        ((init sim_zero)\<lparr>state := ST_CMDR, data := 0x12, digits := 2, serial_in := bytes ''3''\<rparr>)) =
     Some 3 \<and>
   map_option (\<lambda>w'. take 1
        (new_calls ((init sim_zero)\<lparr>state := ST_CMDR, data := 0x23, digits := 3,
                                    serial_in := [LF]\<rparr>) w'))
     (loop (sim_twi 0x68)
        ((init sim_zero)\<lparr>state := ST_CMDR, data := 0x23, digits := 3, serial_in := [LF]\<rparr>)) =
     Some [RequestFrom 0 0x23]"
proof -
  let ?Wa = "(init sim_zero)\<lparr>state := ST_CMDW, data := 5, digits := 1, serial_in := bytes ''A''\<rparr>"
  let ?Wb = "(init sim_zero)\<lparr>state := ST_CMDR, data := 0x12, digits := 2, serial_in := bytes ''3''\<rparr>"
  let ?Wc = "(init sim_zero)\<lparr>state := ST_CMDR, data := 0x23, digits := 3, serial_in := [LF]\<rparr>"
  obtain wa where wa: "loop (sim_twi 0x68) ?Wa = Some wa"
    by (simp add: sim_eval)
  obtain wc where wc: "loop (sim_twi 0x68) ?Wc = Some wc"
    using loop_returns [OF sim_runs_dry] by blast
  have "digits_ok ?Wa" by (simp add: digits_ok_def init_def)
  with C7_nibble_accumulator [of ?Wa "sim_twi 0x68" wa "ch CHR ''A''" "[]"] wa
  have 1: "digits_ok wa"
    and 2: "filter is_Send (new_calls ?Wa wa) = [Send 0x5A]"
    by (simp_all add: init_def bytes_def to_upper_def read_hex_at_def read_hex_def)
  from C7_nibble_accumulator [of ?Wb "sim_twi 0x68" _ "ch CHR ''3''" "[]"]
  have 3: "map_option digits (loop (sim_twi 0x68) ?Wb) = Some 3"
    by (cases "loop (sim_twi 0x68) ?Wb")
       (simp_all add: init_def bytes_def to_upper_def read_hex_at_def read_hex_def)
  from C7_nibble_accumulator [of ?Wc "sim_twi 0x68" wc LF "[]"] wc
  have 4: "take 1 (new_calls ?Wc wc) = [RequestFrom 0 0x23]"
    by (simp add: init_def to_upper_def)
  from 1 2 3 4 wa wc show ?thesis by simp
qed

subsection \<open>Delimiters and letter case\<close>

text \<open>
  C8. From the initial state and on any bus library, the texts \<open>S68W0R7\<close>,
  \<open>S 68 W 0 R 7\<close> and \<open>s68w0r7\<close> produce the same sequence of bus calls, with the same
  arguments, and the same output text; the calls are \<open>beginTransmission(0x68)\<close>,
  \<open>send(0x00)\<close>, \<open>endTransmission()\<close>.
\<close>

theorem C8_delimiter_insensitive:
  "map_option (\<lambda>w. (calls w, serial_out w)) (feed tw ''S 68 W 0 R 7'' (init b)) =
     map_option (\<lambda>w. (calls w, serial_out w)) (feed tw ''S68W0R7'' (init b)) \<and>
   map_option (\<lambda>w. (calls w, serial_out w)) (feed tw ''s68w0r7'' (init b)) =
     map_option (\<lambda>w. (calls w, serial_out w)) (feed tw ''S68W0R7'' (init b)) \<and>
   map_option calls (feed tw ''S68W0R7'' (init b)) =
     Some [BeginTransmission 0x68, Send 0, EndTransmission]"
  by (simp add: feed_def step_defs Let_def init_def)

subsection \<open>Jumps and termination\<close>

lemma loop_jumps:
  assumes "loop tw w = Some w'"
  shows "jumps w' = jumps w \<or> jumps w' = jumps w @ [L_parse_cmd] \<or>
         jumps w' = jumps w @ [L_recv_now, L_parse_cmd]"
  using assms
proof (cases rule: loop_Some_cases)
  case idle
  then show ?thesis by simp
next
  case (cmd c rest)
  then show ?thesis by (simp add: parse_cmd_fields)
next
  case (addr c rest)
  then show ?thesis by (simp add: case_ADDR_fields)
next
  case (cmdw c rest)
  then show ?thesis by (simp add: case_CMDW_fields)
next
  case (request c rest ds)
  then show ?thesis by (simp add: goto_parse_cmd_fields)
next
  case (cmdr c rest)
  then show ?thesis by (simp add: goto_parse_cmd_fields)
next
  case (recv c rest ds)
  then show ?thesis by (simp add: goto_parse_cmd_fields)
qed

text \<open>
  A step need not return on every bus library: on a collaborator that always reports a
  byte available, the step that ends a read count never leaves the drain.
\<close>

lemma babble_offers: "\<not> offers babble_twi ds b"
  by (induction ds arbitrary: b) (simp_all add: babble_twi_def)

lemma babble_never_returns:
  "loop babble_twi
     ((init ())\<lparr>state := ST_CMDR, data := 7, digits := 1, serial_in := [LF]\<rparr>) = None"
proof (cases "loop babble_twi
     ((init ())\<lparr>state := ST_CMDR, data := 7, digits := 1, serial_in := [LF]\<rparr>)")
  case None
  then show ?thesis .
next
  case (Some w')
  then show ?thesis
    by (cases rule: loop_Some_cases) (simp_all add: init_def babble_offers to_upper_def)
qed

text \<open>
  C9, as the code has it. The only loop of a step is the drain at \<open>recv_now\<close>, so a step
  returns whenever the reads of the bus library run dry. A step that returns has taken
  no jump, or one jump to \<open>parse_cmd\<close>, or the jump to \<open>recv_now\<close> followed by the jump to
  \<open>parse_cmd\<close>: at most two jumps for one character, never the same label twice.
\<close>
theorem C9_redispatch_bounded:
  "(runs_dry tw m \<longrightarrow> loop tw w \<noteq> None) \<and>
   (\<forall>w'. loop tw w = Some w' \<longrightarrow>
      jumps w' = jumps w @ new_jumps w w' \<and>
      (new_jumps w w' = [] \<or> new_jumps w w' = [L_parse_cmd] \<or>
       new_jumps w w' = [L_recv_now, L_parse_cmd]))"
proof (intro conjI impI allI)
  assume "runs_dry tw m"
  from loop_returns [OF this, of w] show "loop tw w \<noteq> None" by auto
next
  fix w' assume "loop tw w = Some w'"
  from loop_jumps [OF this] show "jumps w' = jumps w @ new_jumps w w'"
    by (auto simp: new_jumps_def)
next
  fix w' assume "loop tw w = Some w'"
  from loop_jumps [OF this]
  show "new_jumps w w' = [] \<or> new_jumps w w' = [L_parse_cmd] \<or>
       new_jumps w w' = [L_recv_now, L_parse_cmd]"
    by (auto simp: new_jumps_def)
qed

text \<open>
  C9 as stated fails in its bound: the space that ends the read count \<open>R7\<close> is taken
  through two jumps, to \<open>recv_now\<close> and then to \<open>parse_cmd\<close>.
\<close>
theorem C9_counterexample:
  "map_option jumps (feed (sim_twi 0x68) ''R7'' (init sim_zero)) = Some [] \<and>
   map_option jumps (feed (sim_twi 0x68) ''R7 '' (init sim_zero)) =
     Some [L_recv_now, L_parse_cmd]"
  by code_simp

text \<open>
  C9 at a concrete input: the simulated responder, whose queue shrinks with every
  \<open>receive\<close>, and a line feed ending a read count.
\<close>
theorem C9_witness:
  "runs_dry (sim_twi 0x68) (\<lambda>s. length (rxq s)) \<and>
   map_option (\<lambda>w'. new_jumps
        ((init sim_zero)\<lparr>state := ST_CMDR, data := 7, digits := 1, serial_in := [LF]\<rparr>) w')
     (loop (sim_twi 0x68)
        ((init sim_zero)\<lparr>state := ST_CMDR, data := 7, digits := 1, serial_in := [LF]\<rparr>)) =
     Some [L_recv_now, L_parse_cmd]"
proof -
  let ?W = "(init sim_zero)\<lparr>state := ST_CMDR, data := 7, digits := 1, serial_in := [LF]\<rparr>"
  note th = C9_redispatch_bounded [of "sim_twi 0x68" "\<lambda>s. length (rxq s)" ?W]
  from th sim_runs_dry obtain w' where w': "loop (sim_twi 0x68) ?W = Some w'"
    by blast
  then have "take 1 (jumps w') = [L_recv_now]"
    by (cases rule: loop_Some_cases)
       (simp_all add: init_def to_upper_def goto_parse_cmd_fields)
  with th w' have "new_jumps ?W w' = [L_recv_now, L_parse_cmd]"
    by (auto simp: init_def)
  with w' sim_runs_dry show ?thesis by simp
qed

subsection \<open>Closing a write\<close>

lemma loop_EndTransmission:
  assumes "loop tw w = Some w'" and "EndTransmission \<in> set (new_calls w w')"
  shows "state w = ST_CMDW \<and> state w' \<noteq> ST_CMDW"
  using assms(1)
proof (cases rule: loop_Some_cases)
  case idle
  with assms(2) show ?thesis by (simp add: new_calls_def split: if_splits)
next
  case (cmd c rest)
  with assms(2) show ?thesis by (simp add: new_calls_def parse_cmd_fields split: if_splits)
next
  case (addr c rest)
  with assms(2) show ?thesis by (simp add: new_calls_def case_ADDR_fields split: if_splits)
next
  case (cmdw c rest)
  with assms(2) show ?thesis by (simp add: new_calls_def case_CMDW_fields split: if_splits)
next
  case (request c rest ds)
  with assms(2) show ?thesis by (simp add: new_calls_def goto_parse_cmd_fields split: if_splits)
next
  case (cmdr c rest)
  with assms(2) show ?thesis by (simp add: new_calls_def goto_parse_cmd_fields split: if_splits)
next
  case (recv c rest ds)
  with assms(2) show ?thesis by (simp add: new_calls_def goto_parse_cmd_fields split: if_splits)
qed

lemma loop_CMD_P:
  assumes "state w = ST_CMD" and "serial_in w = c # rest" and "to_upper c = ch CHR ''P''"
  shows "loop tw w = Some (w\<lparr>data := 0, digits := 0, to_print := ch CHR '' '', serial_in := rest\<rparr>)"
proof -
  from assms(3) have "c \<noteq> CR" "c \<noteq> LF" by (auto simp: to_upper_def)
  with assms show ?thesis
    by (cases w) (simp add: loop_def read_char_def parse_cmd_def Let_def)
qed

lemma loop_cmd_clear:
  assumes "loop tw w = Some w'" and "cmd_clear w"
  shows "cmd_clear w'"
  using assms(1)
proof (cases rule: loop_Some_cases)
  case idle
  with assms(2) show ?thesis by (simp add: cmd_clear_def)
next
  case (cmd c rest)
  then show ?thesis by (simp add: cmd_clear_def parse_cmd_fields)
next
  case (addr c rest)
  then show ?thesis by (simp add: cmd_clear_def case_ADDR_fields)
next
  case (cmdw c rest)
  then show ?thesis by (simp add: cmd_clear_def case_CMDW_fields)
next
  case (request c rest ds)
  then show ?thesis by (simp add: cmd_clear_def goto_parse_cmd_fields)
next
  case (cmdr c rest)
  then show ?thesis by (simp add: cmd_clear_def goto_parse_cmd_fields)
next
  case (recv c rest ds)
  then show ?thesis by (simp add: cmd_clear_def goto_parse_cmd_fields)
qed

lemma loops_cmd_clear:
  "loops tw n w = Some w' \<Longrightarrow> cmd_clear w \<Longrightarrow> cmd_clear w'"
proof (induction n arbitrary: w)
  case 0
  then show ?case by simp
next
  case (Suc n)
  then show ?case by (auto split: option.splits dest: loop_cmd_clear)
qed

lemma feed_cmd_clear:
  assumes "feed tw s (init b) = Some w" and "state w = ST_CMD"
  shows "data w = 0 \<and> digits w = 0"
proof -
  have "cmd_clear ((init b)\<lparr>serial_in := serial_in (init b) @ bytes s\<rparr>)"
    by (simp add: cmd_clear_def init_def)
  with assms(1) have "cmd_clear w" unfolding feed_def by (rule loops_cmd_clear)
  with assms(2) show ?thesis by (simp add: cmd_clear_def)
qed

text \<open>
  C10. A step calls \<open>endTransmission()\<close> only when it starts in WriteAccumulate, and it
  then leaves that state. In the Command state a \<open>P\<close> (or \<open>p\<close>) calls nothing on the bus,
  prints nothing and keeps the state and the address: the step only consumes the
  character, arms the keep-alive space as for every character, and clears the
  accumulator, which is already clear in every Command state reached from the initial
  state.
\<close>
theorem C10_endTransmission_only_from_write:
  "(loop tw w = Some w' \<and> EndTransmission \<in> set (new_calls w w') \<longrightarrow>
      state w = ST_CMDW \<and> state w' \<noteq> ST_CMDW) \<and>
   (state v = ST_CMD \<and> serial_in v = c # rest \<and> to_upper c = ch CHR ''P'' \<longrightarrow>
      loop tw v =
        Some (v\<lparr>data := 0, digits := 0, to_print := ch CHR '' '', serial_in := rest\<rparr>)) \<and>
   (feed tw s (init b) = Some u \<and> state u = ST_CMD \<longrightarrow> data u = 0 \<and> digits u = 0)"
  using loop_EndTransmission [of tw w w'] loop_CMD_P [of v c rest tw] feed_cmd_clear [of tw s b u]
  by blast

text \<open>
  C10 at concrete inputs: a \<open>P\<close> closing a write, a \<open>P\<close> in the initial state, and the
  Command state after \<open>W5P\<close>.
\<close>
theorem C10_witness:
  "map_option (\<lambda>w'. (EndTransmission \<in> set (new_calls
        ((init sim_zero)\<lparr>state := ST_CMDW, serial_in := bytes ''P''\<rparr>) w'), state w'))
     (loop (sim_twi 0x68) ((init sim_zero)\<lparr>state := ST_CMDW, serial_in := bytes ''P''\<rparr>)) =
     Some (True, ST_CMD) \<and>
   loop (sim_twi 0x68) ((init sim_zero)\<lparr>serial_in := bytes ''P''\<rparr>) =
     Some ((init sim_zero)\<lparr>to_print := ch CHR '' ''\<rparr>) \<and>
   map_option (\<lambda>w. (state w, data w, digits w)) (feed (sim_twi 0x68) ''W5P'' (init sim_zero)) =
     Some (ST_CMD, 0, 0)"
proof -
  let ?W = "(init sim_zero)\<lparr>state := ST_CMDW, serial_in := bytes ''P''\<rparr>"
  let ?V = "(init sim_zero)\<lparr>serial_in := bytes ''P''\<rparr>"
  have "\<exists>w'. loop (sim_twi 0x68) ?W = Some w' \<and> EndTransmission \<in> set (new_calls ?W w') \<and>
          state w' = ST_CMD"
    by (simp add: sim_eval new_calls_def)
  then obtain w' where w': "loop (sim_twi 0x68) ?W = Some w'"
    "EndTransmission \<in> set (new_calls ?W w')" "state w' = ST_CMD"
    by blast
  have "\<exists>u. feed (sim_twi 0x68) ''W5P'' (init sim_zero) = Some u \<and> state u = ST_CMD"
    by (simp add: sim_eval)
  then obtain u where u: "feed (sim_twi 0x68) ''W5P'' (init sim_zero) = Some u" "state u = ST_CMD"
    by blast
  from C10_endTransmission_only_from_write [where tw = "sim_twi 0x68" and w = ?W and w' = w'] w'
  have 1: "state ?W = ST_CMDW \<and> state w' \<noteq> ST_CMDW" by blast
  from C10_endTransmission_only_from_write
    [where tw = "sim_twi 0x68" and v = ?V and c = "ch CHR ''P''" and rest = "[]"]
  have 2: "loop (sim_twi 0x68) ?V = Some ((init sim_zero)\<lparr>to_print := ch CHR '' ''\<rparr>)"
    by (simp add: init_def bytes_def to_upper_def)
  from C10_endTransmission_only_from_write
    [where tw = "sim_twi 0x68" and u = u and s = "''W5P''" and b = sim_zero] u
  have 3: "data u = 0 \<and> digits u = 0" by blast
  from 1 2 3 w' u show ?thesis by simp
qed

end
